theory Spec2Isabelle
  imports Complex_Main "HOL-Library.AList"
begin

section \<open>JavaScript strings\<close>

text \<open>
  A JavaScript string is a sequence of UTF-16 code units. \<open>String.fromCharCode\<close> can
  produce any code unit below 65536, so a string is a list of naturals, not of 8-bit
  characters. \<open>js\<close> writes a string literal of the source.
\<close>

type_synonym jsstring = "nat list"

definition js :: "string \<Rightarrow> jsstring" where
  "js s = map of_char s"

section \<open>The tokenizer: literal and hexadecimal strings\<close>

text \<open>
  \<open>PDFTokenizer\<close> holds the byte buffer and the cursor; \<open>bufferLength\<close> is the length
  of the buffer. A byte is a natural below 256.
\<close>

record PDFTokenizer =
  buffer :: "nat list"
  position :: nat

datatype PDFToken =
    INTEGER int
  | REAL real
  | BOOLEAN bool
  | NAME jsstring
  | STRING jsstring
  | HEX_STRING jsstring
  | ARRAY_START
  | ARRAY_END
  | DICT_START
  | DICT_END
  | NULL
  | INDIRECT_REFERENCE
  | STREAM "nat list"
  | OBJ_START
  | OBJ_END
  | KEYWORD jsstring
  | EOF
  | HEADER jsstring

definition isEOF :: "PDFTokenizer \<Rightarrow> bool" where
  "isEOF t = (position t \<ge> length (buffer t))"

definition isWhitespace :: "nat \<Rightarrow> bool" where
  "isWhitespace byte =
     (byte = 0 \<or> byte = 9 \<or> byte = 10 \<or> byte = 12 \<or> byte = 13 \<or> byte = 32)"

definition isOctalDigit :: "nat \<Rightarrow> bool" where
  "isOctalDigit byte = (byte \<ge> 48 \<and> byte \<le> 55)"

definition isHexDigit :: "nat \<Rightarrow> bool" where
  "isHexDigit byte =
     ((byte \<ge> 48 \<and> byte \<le> 57) \<or> (byte \<ge> 65 \<and> byte \<le> 70) \<or> (byte \<ge> 97 \<and> byte \<le> 102))"

text \<open>
  \<open>parseInt(octal, 8)\<close> is only called on one to three octal digits; its value is the
  number they denote. \<open>String.fromCharCode\<close> reduces its argument modulo 65536.
\<close>

definition parseInt8 :: "jsstring \<Rightarrow> nat" where
  "parseInt8 octal = foldl (\<lambda>acc d. acc * 8 + (d - 48)) 0 octal"

text \<open>
  \<open>parseInt(s, 16)\<close> of the language: leading white space is dropped, then a sign, then
  a \<open>0x\<close> prefix; the longest run of hexadecimal digits is the value, and no digit gives
  \<open>NaN\<close> (\<open>None\<close>).
\<close>

definition isStrWhiteSpace :: "nat \<Rightarrow> bool" where
  "isStrWhiteSpace c =
     (c \<in> {9, 10, 11, 12, 13, 32, 160, 5760, 8232, 8233, 8239, 8287, 12288, 65279}
      \<or> (8192 \<le> c \<and> c \<le> 8202))"

definition hexDigitValue :: "nat \<Rightarrow> nat" where
  "hexDigitValue c = (if c \<le> 57 then c - 48 else if c \<le> 70 then c - 55 else c - 87)"

definition parseInt16 :: "jsstring \<Rightarrow> int option" where
  "parseInt16 s =
     (let s1 = dropWhile isStrWhiteSpace s;
          sign = (case s1 of [] \<Rightarrow> 1 | c # _ \<Rightarrow> if c = 45 then - 1 else (1::int));
          s2 = (case s1 of [] \<Rightarrow> [] | c # r \<Rightarrow> if c = 45 \<or> c = 43 then r else s1);
          s3 = (case s2 of
                  c # x # r \<Rightarrow> if c = 48 \<and> (x = 120 \<or> x = 88) then r else s2
                | _ \<Rightarrow> s2);
          ds = takeWhile isHexDigit s3
      in if ds = [] then None
         else Some (sign * int (foldl (\<lambda>acc d. acc * 16 + hexDigitValue d) 0 ds)))"

definition fromCharCode :: "int option \<Rightarrow> nat" where
  "fromCharCode n = (case n of None \<Rightarrow> 0 | Some v \<Rightarrow> nat (v mod 65536))"

text \<open>
  The body of the \<open>while\<close> loop of \<open>readLiteralString\<close>, run once. The state is the
  cursor and the locals \<open>result\<close> and \<open>depth\<close>. \<open>Inl\<close> is the state at the
  \<open>break\<close> of a backslash at end of buffer, \<open>Inr\<close> the state at the end of the body.
\<close>

definition literalStringStep ::
  "nat list \<Rightarrow> nat \<Rightarrow> jsstring \<Rightarrow> nat \<Rightarrow>
   (nat \<times> jsstring \<times> nat) + (nat \<times> jsstring \<times> nat)" where
  "literalStringStep buf pos result depth =
     (let currentByte = buf ! pos; p1 = pos + 1 in
      if currentByte = 40 then Inr (p1, result @ [40], depth + 1)
      else if currentByte = 41 then
        Inr (p1, (if depth - 1 > 0 then result @ [41] else result), depth - 1)
      else if currentByte = 92 then
        (if p1 \<ge> length buf then Inl (p1, result, depth)
         else
           (let nextByte = buf ! p1; p2 = p1 + 1 in
            if nextByte = 110 then Inr (p2, result @ [10], depth)
            else if nextByte = 114 then Inr (p2, result @ [13], depth)
            else if nextByte = 116 then Inr (p2, result @ [9], depth)
            else if nextByte = 98 then Inr (p2, result @ [8], depth)
            else if nextByte = 102 then Inr (p2, result @ [12], depth)
            else if nextByte = 40 then Inr (p2, result @ [40], depth)
            else if nextByte = 41 then Inr (p2, result @ [41], depth)
            else if nextByte = 92 then Inr (p2, result @ [92], depth)
            else if nextByte = 13 then
              (if p2 < length buf \<and> buf ! p2 = 10 then Inr (p2 + 1, result, depth)
               else Inr (p2, result, depth))
            else if nextByte = 10 then Inr (p2, result, depth)
            else if nextByte \<ge> 48 \<and> nextByte \<le> 55 then
              (if p2 < length buf \<and> isOctalDigit (buf ! p2) then
                 (if p2 + 1 < length buf \<and> isOctalDigit (buf ! (p2 + 1)) then
                    Inr (p2 + 2,
                         result @ [fromCharCode (Some (int (parseInt8
                           [nextByte, buf ! p2, buf ! (p2 + 1)])))], depth)
                  else
                    Inr (p2 + 1,
                         result @ [fromCharCode (Some (int (parseInt8
                           [nextByte, buf ! p2])))], depth))
               else
                 Inr (p2, result @ [fromCharCode (Some (int (parseInt8 [nextByte])))], depth))
            else Inr (p2, result @ [nextByte], depth)))
      else Inr (p1, result @ [currentByte], depth))"

lemma literalStringStep_advances:
  "literalStringStep buf pos result depth = Inr (p, r, d) \<Longrightarrow> pos < p"
  by (simp add: literalStringStep_def Let_def split: if_splits)

lemma literalStringStep_break:
  "literalStringStep buf pos result depth = Inl (p, r, d) \<Longrightarrow> length buf \<le> p \<and> d = depth"
  by (simp add: literalStringStep_def Let_def split: if_splits)

text \<open>
  The loop itself: it runs the body while the cursor is inside the buffer and the
  parentheses are not balanced, and returns the state in which it is left.
\<close>

function readLiteralString_loop ::
  "nat list \<Rightarrow> nat \<Rightarrow> jsstring \<Rightarrow> nat \<Rightarrow> nat \<times> jsstring \<times> nat" where
  "readLiteralString_loop buf pos result depth =
     (if pos < length buf \<and> depth > 0 then
        (case literalStringStep buf pos result depth of
           Inl left \<Rightarrow> left
         | Inr (p, r, d) \<Rightarrow> readLiteralString_loop buf p r d)
      else (pos, result, depth))"
  by pat_completeness auto
termination
  by (relation "measure (\<lambda>(buf, pos, result, depth). length buf - pos)")
     (auto dest: literalStringStep_advances)

declare readLiteralString_loop.simps [simp del]

text \<open>
  \<open>readLiteralString\<close> skips the opening parenthesis, runs the loop from depth 1 and
  returns a \<open>STRING\<close> token on every path: nothing in it raises.
\<close>

definition readLiteralString :: "PDFTokenizer \<Rightarrow> PDFToken \<times> PDFTokenizer" where
  "readLiteralString t =
     (case readLiteralString_loop (buffer t) (position t + 1) [] 1 of
        (pos, result, depth) \<Rightarrow> (STRING result, t\<lparr>position := pos\<rparr>))"

text \<open>The depth at which the loop of \<open>readLiteralString\<close> is left.\<close>

definition literalDepthAtEnd :: "PDFTokenizer \<Rightarrow> nat" where
  "literalDepthAtEnd t =
     (case readLiteralString_loop (buffer t) (position t + 1) [] 1 of
        (pos, result, depth) \<Rightarrow> depth)"

text \<open>The loop of \<open>readHexString\<close>: bytes up to the next \<open>></\<close>, white space dropped.\<close>

function readHexString_loop :: "nat list \<Rightarrow> nat \<Rightarrow> jsstring \<Rightarrow> nat \<times> jsstring" where
  "readHexString_loop buf pos hexString =
     (if pos < length buf \<and> buf ! pos \<noteq> 62 then
        (let currentByte = buf ! pos in
         readHexString_loop buf (pos + 1)
           (if \<not> isWhitespace currentByte then hexString @ [currentByte] else hexString))
      else (pos, hexString))"
  by pat_completeness auto
termination
  by (relation "measure (\<lambda>(buf, pos, hexString). length buf - pos)") auto

declare readHexString_loop.simps [simp del]

text \<open>The conversion loop: each pair of characters becomes one code unit.\<close>

fun hexPairs :: "jsstring \<Rightarrow> jsstring" where
  "hexPairs (a # b # rest) = fromCharCode (parseInt16 [a, b]) # hexPairs rest"
| "hexPairs [a] = [fromCharCode (parseInt16 [a])]"
| "hexPairs [] = []"

text \<open>An odd number of hexadecimal digits gets a trailing \<open>0\<close>.\<close>

definition padHex :: "jsstring \<Rightarrow> jsstring" where
  "padHex hexString = (if length hexString mod 2 = 1 then hexString @ [48] else hexString)"

text \<open>
  \<open>readHexString\<close> skips the opening \<open><\<close>, runs the loop, skips the closing \<open>>\<close>
  unless the cursor is at end of buffer, and returns a \<open>HEX_STRING\<close> token on every
  path.
\<close>

definition readHexString :: "PDFTokenizer \<Rightarrow> PDFToken \<times> PDFTokenizer" where
  "readHexString t =
     (case readHexString_loop (buffer t) (position t + 1) [] of
        (pos, hexString) \<Rightarrow>
          (let pos' = (if pos < length (buffer t) then pos + 1 else pos)
           in (HEX_STRING (hexPairs (padHex hexString)), t\<lparr>position := pos'\<rparr>)))"

subsection \<open>Properties of the string readers\<close>

lemma readLiteralString_loop_left:
  "readLiteralString_loop buf pos result depth = (pos', result', depth') \<Longrightarrow>
   depth' > 0 \<Longrightarrow> length buf \<le> pos'"
proof (induction buf pos result depth rule: readLiteralString_loop.induct)
  case (1 buf pos result depth)
  note eq = readLiteralString_loop.simps[of buf pos result depth]
  show ?case
  proof (cases "pos < length buf \<and> depth > 0")
    case False
    with "1.prems" eq show ?thesis by (simp split: if_splits)
  next
    case True
    show ?thesis
    proof (cases "literalStringStep buf pos result depth")
      case (Inl left)
      with True "1.prems" eq show ?thesis
        by (cases left) (auto dest: literalStringStep_break)
    next
      case (Inr st)
      obtain p r d where st: "st = (p, r, d)" by (cases st)
      from True Inr st "1.prems" eq
      have "readLiteralString_loop buf p r d = (pos', result', depth')"
        by simp
      with "1.IH"[OF True Inr st[symmetric]] "1.prems" show ?thesis by simp
    qed
  qed
qed

lemma readHexString_loop_scan:
  "pos \<le> length buf \<Longrightarrow>
   readHexString_loop buf pos h =
     (pos + length (takeWhile (\<lambda>b. b \<noteq> 62) (drop pos buf)),
      h @ filter (\<lambda>b. \<not> isWhitespace b) (takeWhile (\<lambda>b. b \<noteq> 62) (drop pos buf)))"
proof (induction buf pos h rule: readHexString_loop.induct)
  case (1 buf pos h)
  note eq = readHexString_loop.simps[of buf pos h]
  show ?case
  proof (cases "pos < length buf")
    case False
    with "1.prems" eq show ?thesis by simp
  next
    case inside: True
    then have d: "drop pos buf = buf ! pos # drop (Suc pos) buf"
      by (simp add: Cons_nth_drop_Suc)
    show ?thesis
    proof (cases "buf ! pos = 62")
      case True
      with d inside eq show ?thesis by simp
    next
      case False
      with inside have c: "pos < length buf \<and> buf ! pos \<noteq> 62" by simp
      from inside have le: "pos + 1 \<le> length buf" by simp
      from c "1.IH"[OF c refl le] d eq show ?thesis
        by (simp add: Let_def)
    qed
  qed
qed

lemma takeWhile_absent: "x \<notin> set xs \<Longrightarrow> takeWhile (\<lambda>b. b \<noteq> x) xs = xs"
  by (induction xs) auto

text \<open>
  C6 (as the code has it). Neither reader raises. \<open>readLiteralString\<close> always returns a
  \<open>STRING\<close> token, and when the parentheses are still unbalanced where its loop is left
  the cursor is at end of buffer. \<open>readHexString\<close> on a buffer with no \<open>></\<close> after the
  opening \<open><\<close> returns the \<open>HEX_STRING\<close> token of everything up to the end of the
  buffer (white space dropped, padded to an even length), with the cursor at end of
  buffer.
\<close>

theorem unterminated_strings_return_tokens:
  "(\<exists>r t'. readLiteralString t = (STRING r, t') \<and> (0 < literalDepthAtEnd t \<longrightarrow> isEOF t'))
   \<and> (position t < length (buffer t) \<and> 62 \<notin> set (drop (position t + 1) (buffer t)) \<longrightarrow>
        readHexString t =
          (HEX_STRING (hexPairs (padHex
             (filter (\<lambda>b. \<not> isWhitespace b) (drop (position t + 1) (buffer t))))),
           t\<lparr>position := length (buffer t)\<rparr>))"
proof (intro conjI impI)
  obtain p r d where l: "readLiteralString_loop (buffer t) (position t + 1) [] 1 = (p, r, d)"
    by (cases "readLiteralString_loop (buffer t) (position t + 1) [] 1")
  have "0 < d \<Longrightarrow> length (buffer t) \<le> p"
    using readLiteralString_loop_left[OF l] .
  with l show "\<exists>r t'. readLiteralString t = (STRING r, t') \<and> (0 < literalDepthAtEnd t \<longrightarrow> isEOF t')"
    by (simp add: readLiteralString_def literalDepthAtEnd_def isEOF_def)
next
  assume a: "position t < length (buffer t) \<and> 62 \<notin> set (drop (position t + 1) (buffer t))"
  then have le: "position t + 1 \<le> length (buffer t)" by simp
  from a have tw: "takeWhile (\<lambda>b. b \<noteq> 62) (drop (position t + 1) (buffer t))
                   = drop (position t + 1) (buffer t)"
    by (simp add: takeWhile_absent)
  have "readHexString_loop (buffer t) (position t + 1) [] =
          (length (buffer t), filter (\<lambda>b. \<not> isWhitespace b) (drop (position t + 1) (buffer t)))"
    using le by (simp only: readHexString_loop_scan[OF le] tw) simp
  then show "readHexString t =
          (HEX_STRING (hexPairs (padHex
             (filter (\<lambda>b. \<not> isWhitespace b) (drop (position t + 1) (buffer t))))),
           t\<lparr>position := length (buffer t)\<rparr>)"
    by (simp add: readHexString_def)
qed

text \<open>
  The theorem at the buffers \<open>(abc\<close> and \<open><41\<close>: both are unterminated, and both
  readers return their token with the cursor at end of buffer.
\<close>

theorem unterminated_strings_return_tokens_witness:
  "0 < literalDepthAtEnd \<lparr>buffer = js ''(abc'', position = 0\<rparr>
   \<and> fst (readLiteralString \<lparr>buffer = js ''(abc'', position = 0\<rparr>) = STRING (js ''abc'')
   \<and> isEOF (snd (readLiteralString \<lparr>buffer = js ''(abc'', position = 0\<rparr>))
   \<and> 62 \<notin> set (drop 1 (js ''<41''))
   \<and> readHexString \<lparr>buffer = js ''<41'', position = 0\<rparr>
       = (HEX_STRING (js ''A''), \<lparr>buffer = js ''<41'', position = 3\<rparr>)"
  using unterminated_strings_return_tokens[of "\<lparr>buffer = js ''(abc'', position = 0\<rparr>"]
        unterminated_strings_return_tokens[of "\<lparr>buffer = js ''<41'', position = 0\<rparr>"]
  by (simp add: js_def readLiteralString_def literalDepthAtEnd_def isEOF_def
        readLiteralString_loop.simps literalStringStep_def padHex_def isWhitespace_def
        parseInt16_def isStrWhiteSpace_def isHexDigit_def hexDigitValue_def fromCharCode_def)

text \<open>
  C6 as stated fails: on the unterminated literal string \<open>(abc\<close> and on the unterminated
  hexadecimal string \<open><41\<close> the readers return a string token; no error is raised.
\<close>

theorem unterminated_strings_counterexample:
  "41 \<notin> set (js ''(abc'')
   \<and> readLiteralString \<lparr>buffer = js ''(abc'', position = 0\<rparr>
       = (STRING (js ''abc''), \<lparr>buffer = js ''(abc'', position = 4\<rparr>)
   \<and> 62 \<notin> set (js ''<41'')
   \<and> readHexString \<lparr>buffer = js ''<41'', position = 0\<rparr>
       = (HEX_STRING (js ''A''), \<lparr>buffer = js ''<41'', position = 3\<rparr>)"
  by (simp add: js_def readLiteralString_def readHexString_def
        readLiteralString_loop.simps readHexString_loop.simps literalStringStep_def
        padHex_def isWhitespace_def
        parseInt16_def isStrWhiteSpace_def isHexDigit_def hexDigitValue_def fromCharCode_def)

text \<open>
  C7. The octal escape of the three digits 777 inside a literal string: the claim gives the byte 255
  (the octal value 511 modulo 256); \<open>readLiteralString\<close> emits the code unit 511.
\<close>

theorem octal_escape_777_not_reduced:
  "readLiteralString \<lparr>buffer = [40, 92, 55, 55, 55, 41], position = 0\<rparr>
     = (STRING [511], \<lparr>buffer = [40, 92, 55, 55, 55, 41], position = 6\<rparr>)
   \<and> (511::nat) mod 256 = 255"
  by (simp add: readLiteralString_def readLiteralString_loop.simps literalStringStep_def
        isOctalDigit_def parseInt8_def fromCharCode_def)

section \<open>PDF objects and the object table\<close>

text \<open>
  \<open>PDFObject\<close> is the union type of the source. A dictionary is a JavaScript \<open>Map\<close>,
  kept as an association list in insertion order. Two constructors stand for an object
  of shape \<open>{objectNumber, generationNumber, value}\<close>: \<open>PEntry key\<close> is the very
  object that the table holds under \<open>key\<close>, held by identity, so that a later write to
  that entry is seen through it; \<open>PIndirect\<close> is such an object that is not an entry of
  the table. The resolver writes to table entries only; arrays and maps are never
  written to after they are built, so they are kept by value.
\<close>

datatype PDFObject =
    PNull
  | PNumber real
  | PBoolean bool
  | PString jsstring
  | PArray "PDFObject list"
  | PDictionary "(jsstring \<times> PDFObject) list"
  | PStream "(jsstring \<times> PDFObject) list" "nat list"
  | PReference int int
  | PIndirect int int PDFObject
  | PEntry jsstring

record PDFIndirectObject =
  objectNumber :: int
  generationNumber :: int
  "value" :: PDFObject

text \<open>The classification helper: the tag of an object.\<close>

datatype PDFObjectType =
    TypeNull | TypeNumber | TypeBoolean | TypeString | TypeArray | TypeDictionary
  | TypeIndirectObject | TypeReference | TypeStream

fun getPDFObjectType :: "PDFObject \<Rightarrow> PDFObjectType" where
  "getPDFObjectType PNull = TypeNull"
| "getPDFObjectType (PNumber x) = TypeNumber"
| "getPDFObjectType (PBoolean b) = TypeBoolean"
| "getPDFObjectType (PString x) = TypeString"
| "getPDFObjectType (PArray items) = TypeArray"
| "getPDFObjectType (PStream d x) = TypeStream"
| "getPDFObjectType (PIndirect n g v) = TypeIndirectObject"
| "getPDFObjectType (PEntry key) = TypeIndirectObject"
| "getPDFObjectType (PReference n g) = TypeReference"
| "getPDFObjectType (PDictionary entries) = TypeDictionary"

text \<open>
  The errors the modelled code raises. \<open>UnknownReference\<close> and \<open>CircularReference\<close>
  are the two \<open>Error\<close>s of the resolver, told apart by their message; \<open>TypeError\<close> is
  what the language raises on a property access or a spread of \<open>undefined\<close> or \<open>null\<close>,
  or on a call of something that is not a function. The others are the \<open>Error\<close>s of
  the file-structure parser, one for each message.
\<close>

datatype error =
    UnknownReference jsstring
  | CircularReference jsstring
  | TypeError
  | HeaderNotFound
  | UnexpectedToken PDFToken
  | ExpectedXrefKeyword
  | ExpectedCount
  | ExpectedOffset
  | ExpectedGenerationNumber
  | ExpectedInUseFlag
  | ExpectedTrailerKeyword
  | ExpectedDictionaryStart
  | ExpectedStartxrefKeyword
  | ExpectedIntegerAfterStartxref
  | ExpectedEOFMarker

section \<open>The object resolver\<close>

text \<open>
  The table maps a key to its \<open>IndirectObject\<close>; each key has an object of its own
  (\<open>parseIndirectObject\<close> builds a fresh object for every entry it stores), so the key
  identifies the object. The cache maps a key to the cached object, which is an entry of
  the table and is named by that entry's key.
\<close>

record PDFObjectResolver =
  indirectObjectsMap :: "(jsstring \<times> PDFIndirectObject) list"
  resolvingStack :: "jsstring set"
  resolvedCache :: "(jsstring \<times> jsstring) list"

definition newResolver :: "(jsstring \<times> PDFIndirectObject) list \<Rightarrow> PDFObjectResolver" where
  "newResolver indirectObjectsMap' =
     \<lparr>indirectObjectsMap = indirectObjectsMap', resolvingStack = {}, resolvedCache = []\<rparr>"

text \<open>
  The key is the template string of the two numbers with a blank between them;
  \<open>numberToString\<close> is the decimal rendering of an integer. This is what the source
  prints for an integer of absolute value below ten to the power 21; from there on a
  JavaScript number prints in exponent form, and the keys of the model are not those
  of the source.
\<close>

function digits :: "nat \<Rightarrow> jsstring" where
  "digits n = (if n < 10 then [48 + n] else digits (n div 10) @ [48 + n mod 10])"
  by pat_completeness auto
termination
  by (relation "measure id") auto

declare digits.simps [simp del]

definition numberToString :: "int \<Rightarrow> jsstring" where
  "numberToString n = (if n < 0 then 45 # digits (nat (- n)) else digits (nat n))"

definition refKey :: "int \<Rightarrow> int \<Rightarrow> jsstring" where
  "refKey n g = numberToString n @ [32] @ numberToString g"

text \<open>
  \<open>resolveIndirectReference\<close> and \<open>deepResolve\<close>. Both return the resolver state with
  their result, also when they raise: what was pushed on \<open>resolvingStack\<close> before a
  \<open>throw\<close> stays there. \<open>resolveIndirectReference\<close> returns the key of the table entry
  that the source returns by reference. \<open>deepResolve_items\<close> is the \<open>map\<close> over an array,
  \<open>deepResolve_entries\<close> the \<open>map\<close> over the entries of a dictionary, both from left
  to right. The assignment \<open>pdfObject.value = ...\<close> writes to the entry under \<open>key\<close>.
  The lookup in the equation for \<open>PEntry\<close> cannot miss in a state where every entry
  pointer names an entry of the table.
\<close>

function (domintros)
    resolveIndirectReference ::
      "int \<Rightarrow> int \<Rightarrow> bool \<Rightarrow> bool \<Rightarrow> PDFObjectResolver \<Rightarrow> (error + jsstring) \<times> PDFObjectResolver"
and deepResolve ::
      "PDFObject \<Rightarrow> bool \<Rightarrow> PDFObjectResolver \<Rightarrow> (error + PDFObject) \<times> PDFObjectResolver"
and deepResolve_items ::
      "PDFObject list \<Rightarrow> bool \<Rightarrow> PDFObjectResolver \<Rightarrow> (error + PDFObject list) \<times> PDFObjectResolver"
and deepResolve_entries ::
      "(jsstring \<times> PDFObject) list \<Rightarrow> bool \<Rightarrow> PDFObjectResolver \<Rightarrow>
       (error + (jsstring \<times> PDFObject) list) \<times> PDFObjectResolver"
where
  "resolveIndirectReference n g isDeepResolve silently s =
     (let key = refKey n g in
      case map_of (resolvedCache s) key of
        Some cached \<Rightarrow> (Inr cached, s)
      | None \<Rightarrow>
         (case map_of (indirectObjectsMap s) key of
            None \<Rightarrow> (Inl (UnknownReference key), s)
          | Some pdfObject \<Rightarrow>
              if key \<in> resolvingStack s then
                (if silently then (Inr key, s) else (Inl (CircularReference key), s))
              else if isDeepResolve then
                (case deepResolve (value pdfObject) silently
                        (s\<lparr>resolvingStack := insert key (resolvingStack s)\<rparr>) of
                   (Inl e, s2) \<Rightarrow> (Inl e, s2)
                 | (Inr v, s2) \<Rightarrow>
                     (Inr key,
                      s2\<lparr>indirectObjectsMap :=
                            AList.map_entry key (\<lambda>obj. obj\<lparr>value := v\<rparr>) (indirectObjectsMap s2),
                         resolvedCache := AList.update key key (resolvedCache s2),
                         resolvingStack := resolvingStack s2 - {key}\<rparr>))
              else
                (Inr key, s\<lparr>resolvingStack := insert key (resolvingStack s) - {key}\<rparr>)))"
| "deepResolve PNull silently s = (Inr PNull, s)"
| "deepResolve (PNumber x) silently s = (Inr (PNumber x), s)"
| "deepResolve (PBoolean b) silently s = (Inr (PBoolean b), s)"
| "deepResolve (PString x) silently s = (Inr (PString x), s)"
| "deepResolve (PStream d x) silently s = (Inr (PStream d x), s)"
| "deepResolve (PArray items) silently s =
     (case deepResolve_items items silently s of
        (Inl e, s1) \<Rightarrow> (Inl e, s1)
      | (Inr items', s1) \<Rightarrow> (Inr (PArray items'), s1))"
| "deepResolve (PDictionary entries) silently s =
     (case deepResolve_entries entries silently s of
        (Inl e, s1) \<Rightarrow> (Inl e, s1)
      | (Inr entries', s1) \<Rightarrow> (Inr (PDictionary entries'), s1))"
| "deepResolve (PIndirect n g v) silently s = (Inr (PIndirect n g v), s)"
| "deepResolve (PEntry key) silently s =
     (case map_of (indirectObjectsMap s) key of
        None \<Rightarrow> (Inl TypeError, s)
      | Some obj \<Rightarrow> (Inr (PIndirect (objectNumber obj) (generationNumber obj) (value obj)), s))"
| "deepResolve (PReference n g) silently s =
     (case resolveIndirectReference n g True silently s of
        (Inl e, s1) \<Rightarrow> (Inl e, s1)
      | (Inr key, s1) \<Rightarrow> (Inr (PEntry key), s1))"
| "deepResolve_items [] silently s = (Inr [], s)"
| "deepResolve_items (item # items) silently s =
     (case deepResolve item silently s of
        (Inl e, s1) \<Rightarrow> (Inl e, s1)
      | (Inr item', s1) \<Rightarrow>
          (case deepResolve_items items silently s1 of
             (Inl e, s2) \<Rightarrow> (Inl e, s2)
           | (Inr items', s2) \<Rightarrow> (Inr (item' # items'), s2)))"
| "deepResolve_entries [] silently s = (Inr [], s)"
| "deepResolve_entries (entry # entries) silently s =
     (case deepResolve (snd entry) silently s of
        (Inl e, s1) \<Rightarrow> (Inl e, s1)
      | (Inr v, s1) \<Rightarrow>
          (case deepResolve_entries entries silently s1 of
             (Inl e, s2) \<Rightarrow> (Inl e, s2)
           | (Inr entries', s2) \<Rightarrow> (Inr ((fst entry, v) # entries'), s2)))"
  by pat_completeness auto

text \<open>
  Termination. A call of \<open>resolveIndirectReference\<close> that goes on to \<open>deepResolve\<close>
  has pushed a key of the table that was not on the stack, and the table is finite; in
  between, the object gets smaller. The second element of an array is resolved in the
  state its first element leaves, so the proof needs that a call leaves the keys of the
  table as they are and, when it returns, the stack as it found it.
\<close>

definition keysOf :: "PDFObjectResolver \<Rightarrow> jsstring set" where
  "keysOf s = fst ` set (indirectObjectsMap s)"

definition framed :: "PDFObjectResolver \<Rightarrow> (error + 'a) \<times> PDFObjectResolver \<Rightarrow> bool" where
  "framed s r = (keysOf (snd r) = keysOf s \<and>
                 (\<forall>v. fst r = Inr v \<longrightarrow> resolvingStack (snd r) = resolvingStack s))"

lemma fst_set_map_entry: "fst ` set (AList.map_entry k f xs) = fst ` set xs"
  by (induction xs) auto

lemma keysOf_simps [simp]:
  "keysOf (s\<lparr>resolvingStack := st\<rparr>) = keysOf s"
  "keysOf (s\<lparr>resolvedCache := c\<rparr>) = keysOf s"
  "keysOf (s\<lparr>indirectObjectsMap := AList.map_entry k f (indirectObjectsMap s)\<rparr>) = keysOf s"
  by (simp_all add: keysOf_def fst_set_map_entry)

lemma framed_partial:
  shows "resolveIndirectReference_deepResolve_deepResolve_items_deepResolve_entries_dom
           (Inl (Inl (n, g, d, sl, s))) \<Longrightarrow> framed s (resolveIndirectReference n g d sl s)"
    and "resolveIndirectReference_deepResolve_deepResolve_items_deepResolve_entries_dom
           (Inl (Inr (obj, sl, s))) \<Longrightarrow> framed s (deepResolve obj sl s)"
    and "resolveIndirectReference_deepResolve_deepResolve_items_deepResolve_entries_dom
           (Inr (Inl (xs, sl, s))) \<Longrightarrow> framed s (deepResolve_items xs sl s)"
    and "resolveIndirectReference_deepResolve_deepResolve_items_deepResolve_entries_dom
           (Inr (Inr (es, sl, s))) \<Longrightarrow> framed s (deepResolve_entries es sl s)"
proof (induct n g d sl s and obj sl s and xs sl s and es sl s
       rule: resolveIndirectReference_deepResolve_deepResolve_items_deepResolve_entries.pinduct)
  case (1 n g isDeepResolve silently s)
  let ?key = "refKey n g"
  let ?s1 = "s\<lparr>resolvingStack := insert ?key (resolvingStack s)\<rparr>"
  show ?case
  proof (cases "map_of (resolvedCache s) ?key = None \<and> map_of (indirectObjectsMap s) ?key \<noteq> None
                \<and> ?key \<notin> resolvingStack s \<and> isDeepResolve")
    case False
    then show ?thesis
      by (auto simp: resolveIndirectReference.psimps[OF 1(1)] framed_def Let_def
               split: option.splits)
  next
    case True
    then obtain x2 where x2: "map_of (indirectObjectsMap s) ?key = Some x2" by auto
    from True x2 have "framed ?s1 (deepResolve (value x2) silently ?s1)"
      by (intro 1(2)) auto
    then show ?thesis
      apply (subst resolveIndirectReference.psimps[OF 1(1)])
      using True x2
      apply (auto simp: framed_def Let_def split: prod.splits sum.splits)
      done
  qed
next
  case (13 item items silently s)
  then show ?case
    by (auto simp: deepResolve_items.psimps framed_def split: prod.splits sum.splits)
next
  case (15 entry entries silently s)
  then show ?case
    by (auto simp: deepResolve_entries.psimps framed_def split: prod.splits sum.splits)
qed (auto simp: deepResolve.psimps deepResolve_items.psimps deepResolve_entries.psimps framed_def
          split: option.splits prod.splits sum.splits)

termination resolveIndirectReference
proof (relation "inv_image (measure id <*lex*> measure id) (\<lambda>x. case x of
      Inl (Inl (n, g, d, sl, s)) \<Rightarrow> (card (keysOf s - resolvingStack s), 0)
    | Inl (Inr (obj, sl, s)) \<Rightarrow> (card (keysOf s - resolvingStack s), size obj + 1)
    | Inr (Inl (xs, sl, s)) \<Rightarrow> (card (keysOf s - resolvingStack s), size_list size xs + 1)
    | Inr (Inr (es, sl, s)) \<Rightarrow> (card (keysOf s - resolvingStack s), size_list (size_prod (\<lambda>x. 0) size) es + 1))", goal_cases)
  case 1
  show ?case by (intro wf_inv_image wf_lex_prod wf_measure)
next
  case (2 n g isDeepResolve silently s x x2)
  then have "refKey n g \<in> keysOf s"
    by (auto simp: keysOf_def dest: map_of_SomeD intro: rev_image_eqI)
  moreover have "finite (keysOf s)" by (simp add: keysOf_def)
  ultimately have "card (keysOf s - insert (refKey n g) (resolvingStack s)) < card (keysOf s - resolvingStack s)"
    using 2 by (intro psubset_card_mono) auto
  with 2 show ?case by simp
next
  case (7 item items silently s x y b)
  from framed_partial(2)[OF 7(3)] 7(1,2) show ?case
    by (auto simp: framed_def dest: sym)
next
  case (8 entry entries silently s)
  show ?case by (cases entry) simp
next
  case (9 entry entries silently s x y b)
  from framed_partial(2)[OF 9(3)] 9(1,2) show ?case
    by (auto simp: framed_def dest: sym)
qed simp_all

declare resolveIndirectReference.simps [simp del]

subsection \<open>What a resolution leaves of the table\<close>

text \<open>The keys of the table with the two numbers of each entry, in order.\<close>

definition entryIdentities :: "PDFObjectResolver \<Rightarrow> (jsstring \<times> int \<times> int) list" where
  "entryIdentities s =
     map (\<lambda>(k, obj). (k, objectNumber obj, generationNumber obj)) (indirectObjectsMap s)"


text \<open>The tables of the examples; the first three are taken from the resolver's tests.\<close>

definition T30 :: "(jsstring \<times> PDFIndirectObject) list" where
  "T30 = [(js ''30 0'', \<lparr>objectNumber = 30, generationNumber = 0, value = PReference 31 0\<rparr>),
          (js ''31 0'', \<lparr>objectNumber = 31, generationNumber = 0,
                          value = PString (js ''Nested indirect object'')\<rparr>)]"



definition T1 :: "(jsstring \<times> PDFIndirectObject) list" where
  "T1 = [(js ''1 0'', \<lparr>objectNumber = 1, generationNumber = 0, value = PReference 2 0\<rparr>)]"

lemma refKey_examples:
  "refKey 1 0 = js ''1 0''" "refKey 2 0 = js ''2 0''" "refKey 5 0 = js ''5 0''"
  "refKey 12 0 = js ''12 0''" "refKey 13 0 = js ''13 0''"
  "refKey 30 0 = js ''30 0''" "refKey 31 0 = js ''31 0''"
  by (simp_all add: refKey_def numberToString_def digits.simps js_def)

lemma entryIdentities_simps [simp]:
  "entryIdentities (s\<lparr>resolvingStack := st\<rparr>) = entryIdentities s"
  "entryIdentities (s\<lparr>resolvedCache := c\<rparr>) = entryIdentities s"
  by (simp_all add: entryIdentities_def)

lemma map_entry_value_identities:
  "map (\<lambda>(k, obj). (k, objectNumber obj, generationNumber obj))
       (AList.map_entry key (\<lambda>obj. obj\<lparr>value := v\<rparr>) xs)
   = map (\<lambda>(k, obj). (k, objectNumber obj, generationNumber obj)) xs"
  by (induction xs) auto

lemma entryIdentities_setValue [simp]:
  "entryIdentities (s\<lparr>indirectObjectsMap :=
       AList.map_entry key (\<lambda>obj. obj\<lparr>value := v\<rparr>) (indirectObjectsMap s)\<rparr>) = entryIdentities s"
  by (simp add: entryIdentities_def map_entry_value_identities)

lemma resolution_keeps_identities:
  shows "entryIdentities (snd (resolveIndirectReference n g d sl s)) = entryIdentities s"
    and "entryIdentities (snd (deepResolve obj sl s)) = entryIdentities s"
    and "entryIdentities (snd (deepResolve_items xs sl s)) = entryIdentities s"
    and "entryIdentities (snd (deepResolve_entries es sl s)) = entryIdentities s"
proof (induct n g d sl s and obj sl s and xs sl s and es sl s
       rule: resolveIndirectReference_deepResolve_deepResolve_items_deepResolve_entries.induct)
  case (1 n g isDeepResolve silently s)
  let ?key = "refKey n g"
  let ?s1 = "s\<lparr>resolvingStack := insert ?key (resolvingStack s)\<rparr>"
  show ?case
  proof (cases "map_of (resolvedCache s) ?key = None \<and> map_of (indirectObjectsMap s) ?key \<noteq> None
                \<and> ?key \<notin> resolvingStack s \<and> isDeepResolve")
    case False
    then show ?thesis
      by (auto simp: resolveIndirectReference.simps Let_def split: option.splits)
  next
    case True
    then obtain x2 where x2: "map_of (indirectObjectsMap s) ?key = Some x2" by auto
    from True x2
    have "entryIdentities (snd (deepResolve (value x2) silently ?s1)) = entryIdentities ?s1"
      by (intro 1) auto
    then show ?thesis
      apply (subst resolveIndirectReference.simps)
      using True x2
      apply (auto simp: Let_def split: prod.splits sum.splits)
      done
  qed
next
  case (13 item items silently s)
  then show ?case
    by (auto split: prod.splits sum.splits)
next
  case (15 entry entries silently s)
  then show ?case
    by (auto split: prod.splits sum.splits)
qed (auto split: option.splits prod.splits sum.splits)

text \<open>
  The keys that are in the cache. A deep resolution changes the table only at the keys
  it newly puts in the cache: it adds to the cache and never takes from it, a key that
  is on the stack when a call starts is still there when the call ends and is not
  cached by it, and the entry of a key that was cached before, or is not cached after,
  is as it was.
\<close>

definition cachedKeys :: "PDFObjectResolver \<Rightarrow> jsstring set" where
  "cachedKeys s = fst ` set (resolvedCache s)"

lemma cachedKeys_stack [simp]: "cachedKeys (s\<lparr>resolvingStack := x\<rparr>) = cachedKeys s"
  by (simp add: cachedKeys_def)

definition deepFrame :: "PDFObjectResolver \<Rightarrow> PDFObjectResolver \<Rightarrow> bool" where
  "deepFrame s s' =
     (cachedKeys s \<subseteq> cachedKeys s'
      \<and> resolvingStack s \<subseteq> resolvingStack s'
      \<and> (\<forall>k \<in> resolvingStack s. k \<in> cachedKeys s' \<longrightarrow> k \<in> cachedKeys s)
      \<and> (\<forall>k. k \<in> cachedKeys s \<or> k \<notin> cachedKeys s'
             \<longrightarrow> map_of (indirectObjectsMap s') k = map_of (indirectObjectsMap s) k))"

lemma deepFrameI:
  assumes "cachedKeys s \<subseteq> cachedKeys s'" and "resolvingStack s \<subseteq> resolvingStack s'"
    and "\<And>k. k \<in> resolvingStack s \<Longrightarrow> k \<in> cachedKeys s' \<Longrightarrow> k \<in> cachedKeys s"
    and "\<And>k. k \<in> cachedKeys s \<or> k \<notin> cachedKeys s' \<Longrightarrow>
            map_of (indirectObjectsMap s') k = map_of (indirectObjectsMap s) k"
  shows "deepFrame s s'"
  unfolding deepFrame_def using assms by blast

lemma deepFrame_cached: "deepFrame s s' \<Longrightarrow> k \<in> cachedKeys s \<Longrightarrow> k \<in> cachedKeys s'"
  unfolding deepFrame_def by blast

lemma deepFrame_stack: "deepFrame s s' \<Longrightarrow> k \<in> resolvingStack s \<Longrightarrow> k \<in> resolvingStack s'"
  unfolding deepFrame_def by blast

lemma deepFrame_old:
  "deepFrame s s' \<Longrightarrow> k \<in> resolvingStack s \<Longrightarrow> k \<in> cachedKeys s' \<Longrightarrow> k \<in> cachedKeys s"
  unfolding deepFrame_def by blast

lemma deepFrame_table:
  "deepFrame s s' \<Longrightarrow> k \<in> cachedKeys s \<or> k \<notin> cachedKeys s' \<Longrightarrow>
   map_of (indirectObjectsMap s') k = map_of (indirectObjectsMap s) k"
  unfolding deepFrame_def by blast

lemma deepFrame_refl [simp]: "deepFrame s s"
  by (rule deepFrameI) simp_all

lemma deepFrame_trans:
  assumes a: "deepFrame s s'" and b: "deepFrame s' s''"
  shows "deepFrame s s''"
proof (rule deepFrameI)
  show "cachedKeys s \<subseteq> cachedKeys s''"
    using deepFrame_cached[OF a] deepFrame_cached[OF b] by blast
  show "resolvingStack s \<subseteq> resolvingStack s''"
    using deepFrame_stack[OF a] deepFrame_stack[OF b] by blast
  show "k \<in> cachedKeys s" if "k \<in> resolvingStack s" "k \<in> cachedKeys s''" for k
  proof -
    from a that(1) have "k \<in> resolvingStack s'" by (rule deepFrame_stack)
    with b have "k \<in> cachedKeys s'" using that(2) by (rule deepFrame_old)
    with a that(1) show ?thesis by (rule deepFrame_old)
  qed
  show "map_of (indirectObjectsMap s'') k = map_of (indirectObjectsMap s) k"
    if "k \<in> cachedKeys s \<or> k \<notin> cachedKeys s''" for k
  proof -
    from that have 1: "k \<in> cachedKeys s \<or> k \<notin> cachedKeys s'"
      using deepFrame_cached[OF b] by blast
    from that have 2: "k \<in> cachedKeys s' \<or> k \<notin> cachedKeys s''"
      using deepFrame_cached[OF a] by blast
    from deepFrame_table[OF a 1] deepFrame_table[OF b 2] show ?thesis by simp
  qed
qed

lemma deepFrame_finish:
  assumes fr: "deepFrame (s\<lparr>resolvingStack := insert key (resolvingStack s)\<rparr>) s2"
    and unc: "key \<notin> cachedKeys s" and off: "key \<notin> resolvingStack s"
  shows "deepFrame s (s2\<lparr>indirectObjectsMap := AList.map_entry key f (indirectObjectsMap s2),
                          resolvedCache := AList.update key key (resolvedCache s2),
                          resolvingStack := resolvingStack s2 - {key}\<rparr>)"
proof (rule deepFrameI)
  let ?s1 = "s\<lparr>resolvingStack := insert key (resolvingStack s)\<rparr>"
  let ?s' = "s2\<lparr>indirectObjectsMap := AList.map_entry key f (indirectObjectsMap s2),
                 resolvedCache := AList.update key key (resolvedCache s2),
                 resolvingStack := resolvingStack s2 - {key}\<rparr>"
  have ck: "cachedKeys ?s' = insert key (cachedKeys s2)"
    by (simp add: cachedKeys_def dom_update)
  show "cachedKeys s \<subseteq> cachedKeys ?s'"
    using deepFrame_cached[OF fr] ck by auto
  show "resolvingStack s \<subseteq> resolvingStack ?s'"
    using deepFrame_stack[OF fr] off by auto
  show "k \<in> cachedKeys s" if "k \<in> resolvingStack s" "k \<in> cachedKeys ?s'" for k
  proof -
    from that off have "k \<noteq> key" by auto
    with that ck have "k \<in> cachedKeys s2" by simp
    with deepFrame_old[OF fr, of k] that(1) show ?thesis by simp
  qed
  show "map_of (indirectObjectsMap ?s') k = map_of (indirectObjectsMap s) k"
    if "k \<in> cachedKeys s \<or> k \<notin> cachedKeys ?s'" for k
  proof -
    from that unc ck have ne: "k \<noteq> key" by auto
    from that ck have "k \<in> cachedKeys ?s1 \<or> k \<notin> cachedKeys s2" by auto
    from deepFrame_table[OF fr this] ne show ?thesis by (simp add: map_of_map_entry)
  qed
qed

lemma deepFrame_push:
  "deepFrame (s\<lparr>resolvingStack := insert key (resolvingStack s)\<rparr>) s2 \<Longrightarrow> deepFrame s s2"
  unfolding deepFrame_def by auto

lemma resolution_frame:
  shows "deepFrame s (snd (resolveIndirectReference n g d sl s))"
    and "deepFrame s (snd (deepResolve obj sl s))"
    and "deepFrame s (snd (deepResolve_items xs sl s))"
    and "deepFrame s (snd (deepResolve_entries es sl s))"
proof (induct n g d sl s and obj sl s and xs sl s and es sl s
       rule: resolveIndirectReference_deepResolve_deepResolve_items_deepResolve_entries.induct)
  case (1 n g isDeepResolve silently s)
  let ?key = "refKey n g"
  let ?s1 = "s\<lparr>resolvingStack := insert ?key (resolvingStack s)\<rparr>"
  show ?case
  proof (cases "map_of (resolvedCache s) ?key = None \<and> map_of (indirectObjectsMap s) ?key \<noteq> None
                \<and> ?key \<notin> resolvingStack s \<and> isDeepResolve")
    case False
    then show ?thesis
      by (auto simp: resolveIndirectReference.simps Let_def deepFrame_def split: option.splits)
  next
    case True
    then obtain x2 where x2: "map_of (indirectObjectsMap s) ?key = Some x2" by auto
    from True have unc: "?key \<notin> cachedKeys s"
      by (simp add: cachedKeys_def map_of_eq_None_iff)
    from True x2
    have fr: "deepFrame ?s1 (snd (deepResolve (value x2) silently ?s1))"
      by (intro 1) auto
    show ?thesis
    proof (cases "deepResolve (value x2) silently ?s1")
      case (Pair r s2)
      with fr have fr2: "deepFrame ?s1 s2" by simp
      show ?thesis
      proof (cases r)
        case (Inl e)
        from fr2 have "deepFrame s s2"
          by (rule deepFrame_push)
        with True x2 Pair Inl show ?thesis
          by (simp add: resolveIndirectReference.simps Let_def)
      next
        case (Inr v)
        from True have off: "?key \<notin> resolvingStack s" by simp
        note deepFrame_finish[OF fr2 unc off]
        with True x2 Pair Inr show ?thesis
          by (simp add: resolveIndirectReference.simps Let_def)
      qed
    qed
  qed
next
  case (13 item items silently s)
  show ?case
  proof (cases "deepResolve item silently s")
    case (Pair r s1)
    with 13(1) have a: "deepFrame s s1" by simp
    show ?thesis
    proof (cases r)
      case (Inl e)
      with Pair a show ?thesis by simp
    next
      case (Inr v)
      with Pair have "(Inr v, s1) = deepResolve item silently s" by simp
      then have b: "deepFrame s1 (snd (deepResolve_items items silently s1))"
        by (rule 13(2)[OF _ refl])
      with a have c: "deepFrame s (snd (deepResolve_items items silently s1))"
        by (rule deepFrame_trans)
      obtain r2 s2 where p2: "deepResolve_items items silently s1 = (r2, s2)"
        by (cases "deepResolve_items items silently s1")
      with c Pair Inr show ?thesis
        by (simp split: sum.splits)
    qed
  qed
next
  case (15 entry entries silently s)
  show ?case
  proof (cases "deepResolve (snd entry) silently s")
    case (Pair r s1)
    with 15(1) have a: "deepFrame s s1" by simp
    show ?thesis
    proof (cases r)
      case (Inl e)
      with Pair a show ?thesis by simp
    next
      case (Inr v)
      with Pair have "(Inr v, s1) = deepResolve (snd entry) silently s" by simp
      then have b: "deepFrame s1 (snd (deepResolve_entries entries silently s1))"
        by (rule 15(2)[OF _ refl])
      with a have c: "deepFrame s (snd (deepResolve_entries entries silently s1))"
        by (rule deepFrame_trans)
      obtain r2 s2 where p2: "deepResolve_entries entries silently s1 = (r2, s2)"
        by (cases "deepResolve_entries entries silently s1")
      with c Pair Inr show ?thesis
        by (simp split: sum.splits)
    qed
  qed
qed (auto split: option.splits prod.splits sum.splits)

lemma deep_resolution_writes:
  assumes miss: "map_of (resolvedCache s) (refKey n g) = None"
    and tab: "map_of (indirectObjectsMap s) (refKey n g) = Some obj"
    and off: "refKey n g \<notin> resolvingStack s"
    and dr: "deepResolve (value obj) silently
               (s\<lparr>resolvingStack := insert (refKey n g) (resolvingStack s)\<rparr>) = (Inr v, s2)"
  shows "\<exists>s'. resolveIndirectReference n g True silently s = (Inr (refKey n g), s')
              \<and> map_of (indirectObjectsMap s') (refKey n g) = Some (obj\<lparr>value := v\<rparr>)
              \<and> map_of (resolvedCache s') (refKey n g) = Some (refKey n g)"
proof -
  let ?key = "refKey n g"
  let ?s1 = "s\<lparr>resolvingStack := insert ?key (resolvingStack s)\<rparr>"
  from resolution_frame(2)[of ?s1 "value obj" silently] dr have fr: "deepFrame ?s1 s2"
    by simp
  from miss have unc: "?key \<notin> cachedKeys ?s1"
    by (simp add: cachedKeys_def map_of_eq_None_iff)
  have "?key \<in> resolvingStack ?s1" by simp
  with fr have "?key \<in> cachedKeys s2 \<Longrightarrow> ?key \<in> cachedKeys ?s1"
    by (rule deepFrame_old)
  with unc have "?key \<in> cachedKeys ?s1 \<or> ?key \<notin> cachedKeys s2" by blast
  with fr have "map_of (indirectObjectsMap s2) ?key = map_of (indirectObjectsMap ?s1) ?key"
    by (rule deepFrame_table)
  with tab have tab2: "map_of (indirectObjectsMap s2) ?key = Some obj" by simp
  from miss tab off dr tab2 show ?thesis
    by (simp add: resolveIndirectReference.simps Let_def map_of_map_entry update_conv')
qed

text \<open>
  C1 (as the code has it). In shallow mode a call of \<open>resolveIndirectReference\<close> leaves
  the whole resolver state, and with it every entry of the table, as it was, for every
  reference and either setting of the cycle flag. In either mode a call keeps the keys
  of the table and the object and generation number of every entry, and it keeps the
  whole entry of every key that it does not newly put in the cache. When the deep
  resolution of a key that is in the table, not in the cache and not on the stack
  returns, the \<open>value\<close> field of the stored entry of that key has been overwritten with
  the value that \<open>deepResolve\<close> returned for the old one.
\<close>

theorem resolution_table_effect:
  "snd (resolveIndirectReference n g False silently s) = s
   \<and> entryIdentities (snd (resolveIndirectReference n g isDeepResolve silently s))
       = entryIdentities s
   \<and> (\<forall>k. k \<in> cachedKeys s
           \<or> k \<notin> cachedKeys (snd (resolveIndirectReference n g isDeepResolve silently s))
         \<longrightarrow> map_of (indirectObjectsMap (snd (resolveIndirectReference n g isDeepResolve silently s))) k
               = map_of (indirectObjectsMap s) k)
   \<and> (map_of (resolvedCache s) (refKey n g) = None
      \<and> map_of (indirectObjectsMap s) (refKey n g) = Some obj
      \<and> refKey n g \<notin> resolvingStack s
      \<and> deepResolve (value obj) silently
           (s\<lparr>resolvingStack := insert (refKey n g) (resolvingStack s)\<rparr>) = (Inr v, s2)
      \<longrightarrow> fst (resolveIndirectReference n g True silently s) = Inr (refKey n g)
          \<and> map_of (indirectObjectsMap (snd (resolveIndirectReference n g True silently s)))
               (refKey n g) = Some (obj\<lparr>value := v\<rparr>))"
proof (intro conjI allI impI)
  show "snd (resolveIndirectReference n g False silently s) = s"
    by (simp add: resolveIndirectReference.simps[of n g False] Let_def split: option.splits)
  show "entryIdentities (snd (resolveIndirectReference n g isDeepResolve silently s))
          = entryIdentities s"
    by (rule resolution_keeps_identities)
  show "map_of (indirectObjectsMap (snd (resolveIndirectReference n g isDeepResolve silently s))) k
          = map_of (indirectObjectsMap s) k"
    if "k \<in> cachedKeys s
          \<or> k \<notin> cachedKeys (snd (resolveIndirectReference n g isDeepResolve silently s))" for k
    using resolution_frame(1) that by (rule deepFrame_table)
next
  assume a: "map_of (resolvedCache s) (refKey n g) = None
      \<and> map_of (indirectObjectsMap s) (refKey n g) = Some obj
      \<and> refKey n g \<notin> resolvingStack s
      \<and> deepResolve (value obj) silently
           (s\<lparr>resolvingStack := insert (refKey n g) (resolvingStack s)\<rparr>) = (Inr v, s2)"
  then obtain s' where r: "resolveIndirectReference n g True silently s = (Inr (refKey n g), s')"
    and w: "map_of (indirectObjectsMap s') (refKey n g) = Some (obj\<lparr>value := v\<rparr>)"
    using deep_resolution_writes[of s n g obj silently v s2] by blast
  from r show "fst (resolveIndirectReference n g True silently s) = Inr (refKey n g)" by simp
  from r w show "map_of (indirectObjectsMap (snd (resolveIndirectReference n g True silently s)))
               (refKey n g) = Some (obj\<lparr>value := v\<rparr>)" by simp
qed

text \<open>
  C1 as stated fails in deep mode. In the table of the test on nested indirect objects,
  entry \<open>30 0\<close> holds a reference to \<open>31 0\<close>; after a deep resolution of \<open>30 0\<close> the
  \<open>value\<close> field of the stored entry is the entry \<open>31 0\<close> itself.
\<close>

theorem deep_resolution_rewrites_table:
  "map_of (indirectObjectsMap (newResolver T30)) (js ''30 0'')
     = Some \<lparr>objectNumber = 30, generationNumber = 0, value = PReference 31 0\<rparr>
   \<and> map_of (indirectObjectsMap (snd (resolveIndirectReference 30 0 True True (newResolver T30))))
        (js ''30 0'')
     = Some \<lparr>objectNumber = 30, generationNumber = 0, value = PEntry (js ''31 0'')\<rparr>"
  by (simp add: resolveIndirectReference.simps newResolver_def T30_def refKey_examples js_def
        Let_def)

text \<open>
  The theorem at the entry \<open>30 0\<close> of that table, in a new resolver: the value that
  \<open>deepResolve\<close> returns for the reference to \<open>31 0\<close> is the entry \<open>31 0\<close>, and it
  is the value of the stored entry \<open>30 0\<close> after the call.
\<close>

theorem resolution_table_effect_witness:
  "map_of (resolvedCache (newResolver T30)) (refKey 30 0) = None
   \<and> map_of (indirectObjectsMap (newResolver T30)) (refKey 30 0)
       = Some \<lparr>objectNumber = 30, generationNumber = 0, value = PReference 31 0\<rparr>
   \<and> refKey 30 0 \<notin> resolvingStack (newResolver T30)
   \<and> deepResolve (PReference 31 0) True
        ((newResolver T30)\<lparr>resolvingStack := {refKey 30 0}\<rparr>)
       = (Inr (PEntry (js ''31 0'')),
          \<lparr>indirectObjectsMap = T30, resolvingStack = {js ''30 0''},
           resolvedCache = [(js ''31 0'', js ''31 0'')]\<rparr>)
   \<and> fst (resolveIndirectReference 30 0 True True (newResolver T30)) = Inr (refKey 30 0)
   \<and> map_of (indirectObjectsMap (snd (resolveIndirectReference 30 0 True True (newResolver T30))))
        (refKey 30 0)
       = Some \<lparr>objectNumber = 30, generationNumber = 0, value = PEntry (js ''31 0'')\<rparr>"
proof -
  have dr: "deepResolve (PReference 31 0) True
        ((newResolver T30)\<lparr>resolvingStack := {refKey 30 0}\<rparr>)
       = (Inr (PEntry (js ''31 0'')),
          \<lparr>indirectObjectsMap = T30, resolvingStack = {js ''30 0''},
           resolvedCache = [(js ''31 0'', js ''31 0'')]\<rparr>)"
    by (simp add: resolveIndirectReference.simps newResolver_def T30_def refKey_examples js_def
          Let_def)
  have pre: "map_of (resolvedCache (newResolver T30)) (refKey 30 0) = None
     \<and> map_of (indirectObjectsMap (newResolver T30)) (refKey 30 0)
         = Some \<lparr>objectNumber = 30, generationNumber = 0, value = PReference 31 0\<rparr>
     \<and> refKey 30 0 \<notin> resolvingStack (newResolver T30)"
    by (simp add: newResolver_def T30_def refKey_examples js_def)
  from pre dr
    resolution_table_effect[where s = "newResolver T30" and n = 30 and g = 0 and silently = True
      and obj = "\<lparr>objectNumber = 30, generationNumber = 0, value = PReference 31 0\<rparr>"
      and v = "PEntry (js ''31 0'')"
      and ?s2.0 = "\<lparr>indirectObjectsMap = T30, resolvingStack = {js ''30 0''},
                    resolvedCache = [(js ''31 0'', js ''31 0'')]\<rparr>"]
  show ?thesis
    by (simp add: newResolver_def)
qed




subsection \<open>Calling twice\<close>

text \<open>A call that returns gives the same result, in the same state, when repeated.\<close>

lemma resolve_again:
  assumes "resolveIndirectReference n g d sl s = (Inr a, s')"
  shows "resolveIndirectReference n g d sl s' = (Inr a, s')"
proof (cases "map_of (resolvedCache s) (refKey n g) = None
              \<and> map_of (indirectObjectsMap s) (refKey n g) \<noteq> None
              \<and> refKey n g \<notin> resolvingStack s \<and> d")
  case False
  with assms have "s' = s"
    by (auto simp: resolveIndirectReference.simps Let_def split: option.splits if_splits)
  with assms show ?thesis by simp
next
  case True
  with assms have "map_of (resolvedCache s') (refKey n g) = Some (refKey n g) \<and> a = refKey n g"
    by (auto simp: resolveIndirectReference.simps Let_def update_conv'
             split: option.splits if_splits prod.splits sum.splits)
  then show ?thesis
    by (simp add: resolveIndirectReference.simps[of n g d sl s'] Let_def)
qed

text \<open>
  C9. The table holds \<open>1 0\<close>, whose value is a reference to \<open>2 0\<close>, which the table
  does not hold. The first deep silent resolution of \<open>1 0\<close> raises the unknown-reference
  error and leaves \<open>1 0\<close> on the resolving stack; the second call finds it there and
  returns the entry. The two results differ.
\<close>

theorem failed_resolution_not_repeatable:
  "map_of T1 (refKey 1 0) = Some \<lparr>objectNumber = 1, generationNumber = 0, value = PReference 2 0\<rparr>
   \<and> resolveIndirectReference 1 0 True True (newResolver T1)
       = (Inl (UnknownReference (js ''2 0'')),
          \<lparr>indirectObjectsMap = T1, resolvingStack = {js ''1 0''}, resolvedCache = []\<rparr>)
   \<and> resolveIndirectReference 1 0 True True
         (snd (resolveIndirectReference 1 0 True True (newResolver T1)))
       = (Inr (js ''1 0''),
          \<lparr>indirectObjectsMap = T1, resolvingStack = {js ''1 0''}, resolvedCache = []\<rparr>)"
  by (simp add: resolveIndirectReference.simps newResolver_def T1_def
        refKey_examples js_def Let_def)

subsection \<open>Reference cycles\<close>

text \<open>
  The references a deep resolution follows from an object are the object itself when
  it is a reference, and those in its arrays and dictionaries, at any depth; a stream
  and an indirect object held by value are returned as they are, so a reference in the
  dictionary of a stream or inside such an indirect object is not followed and stays
  as it is. \<open>refsOf\<close> lists the followed references of an object and \<open>edges\<close> is the
  graph they make of a table; a cycle that closes only through the dictionary of a
  stream is no cycle of this graph, and no resolution sees it. \<open>pointerForm\<close> is
  an object with each followed reference replaced by the table entry the reference
  names, the entry itself and not a copy of it. A table is closed when every followed
  reference in it names one of its entries and no value holds a table entry, which
  only a resolution puts there.
\<close>

fun refsOf :: "PDFObject \<Rightarrow> (int \<times> int) list" where
  "refsOf (PReference n g) = [(n, g)]"
| "refsOf (PArray items) = concat (map refsOf items)"
| "refsOf (PDictionary entries) = concat (map (\<lambda>entry. refsOf (snd entry)) entries)"
| "refsOf obj = []"


fun pointerForm :: "PDFObject \<Rightarrow> PDFObject" where
  "pointerForm (PReference n g) = PEntry (refKey n g)"
| "pointerForm (PArray items) = PArray (map pointerForm items)"
| "pointerForm (PDictionary entries) =
     PDictionary (map (\<lambda>entry. (fst entry, pointerForm (snd entry))) entries)"
| "pointerForm obj = obj"


definition edges :: "(jsstring \<times> PDFIndirectObject) list \<Rightarrow> (jsstring \<times> jsstring) set" where
  "edges t = {(key, refKey n g) | key obj n g.
                map_of t key = Some obj \<and> (n, g) \<in> set (refsOf (value obj))}"

text \<open>
  In silent mode a deep resolution keeps this invariant: the entries in the cache are
  those of the table whose value has been overwritten with its pointer form, no key is
  both cached and on the stack, and a reference of a cached entry names a key that is
  cached or still on the stack.
\<close>

definition silentInv :: "(jsstring \<times> PDFIndirectObject) list \<Rightarrow> PDFObjectResolver \<Rightarrow> bool" where
  "silentInv t s =
     ((\<forall>k. map_of (indirectObjectsMap s) k =
            (if k \<in> cachedKeys s
             then map_option (\<lambda>obj. obj\<lparr>value := pointerForm (value obj)\<rparr>) (map_of t k)
             else map_of t k))
      \<and> (\<forall>k c. map_of (resolvedCache s) k = Some c \<longrightarrow> c = k \<and> k \<in> fst ` set t)
      \<and> resolvingStack s \<inter> cachedKeys s = {}
      \<and> (\<forall>k \<in> cachedKeys s. \<forall>obj. map_of t k = Some obj \<longrightarrow>
            (\<forall>(n, g) \<in> set (refsOf (value obj)).
               refKey n g \<in> cachedKeys s \<union> resolvingStack s)))"

definition silentStep ::
  "(jsstring \<times> PDFIndirectObject) list \<Rightarrow> PDFObjectResolver \<Rightarrow> (int \<times> int) list \<Rightarrow>
   PDFObjectResolver \<Rightarrow> bool" where
  "silentStep t s refs s' =
     (silentInv t s' \<and> resolvingStack s' = resolvingStack s \<and> cachedKeys s \<subseteq> cachedKeys s'
      \<and> (\<forall>(n, g) \<in> set refs. refKey n g \<in> cachedKeys s' \<union> resolvingStack s))"

lemma silentStep_refl: "silentInv t s \<Longrightarrow> silentStep t s [] s"
  by (simp add: silentStep_def)









text \<open>
  In error mode a resolution that returns has met no key on the stack, so the cached
  keys are closed under the edges and none of them lies on a cycle. A resolution that
  raises does so at a key on the stack; every key on the stack reaches the reference
  in hand, so that key lies on a cycle.
\<close>

definition acyclicCache :: "(jsstring \<times> PDFIndirectObject) list \<Rightarrow> PDFObjectResolver \<Rightarrow> bool" where
  "acyclicCache t s =
     (\<forall>k \<in> cachedKeys s. (\<forall>k'. (k, k') \<in> edges t \<longrightarrow> k' \<in> cachedKeys s) \<and> (k, k) \<notin> (edges t)\<^sup>+)"





lemma acyclicCache_stack [simp]: "acyclicCache t (s\<lparr>resolvingStack := x\<rparr>) = acyclicCache t s"
  by (simp add: acyclicCache_def)

















section \<open>The file-structure parser\<close>

text \<open>
  The parser works on the token array with an index into it. Its table of indirect
  objects is the field \<open>indirectObjectsMap\<close> of the source, here \<open>indirectObjects\<close>
  (the resolver's record has the other name); the field \<open>generationNumber\<close> of a
  cross-reference entry is \<open>generation\<close> for the same reason. The fields of the trailer
  are what \<open>Map.get\<close> returns, \<open>None\<close> for \<open>undefined\<close>: the casts of the source
  check nothing.
\<close>

record XRefEntry =
  offset :: int
  generation :: int
  inUse :: bool

record TrailerDictionary =
  Size :: "PDFObject option"
  Root :: "PDFObject option"
  Info :: "PDFObject option"
  ID :: "PDFObject option"
  Encrypt :: "PDFObject option"
  Prev :: "PDFObject option"
  parsedDictionary :: "(jsstring \<times> PDFObject) list"

record FileStructureParser =
  tokens :: "PDFToken list"
  currentTokenIndex :: nat
  indirectObjects :: "(jsstring \<times> PDFIndirectObject) list"
  objects :: "PDFObject list"
  xrefTable :: "(int \<times> XRefEntry) list"
  trailer :: "TrailerDictionary option"
  version :: jsstring

definition newParser :: "PDFToken list \<Rightarrow> FileStructureParser" where
  "newParser input = \<lparr>tokens = input, currentTokenIndex = 0, indirectObjects = [],
                       objects = [], xrefTable = [], trailer = None, version = []\<rparr>"

text \<open>
  \<open>advance\<close> is \<open>currentTokenIndex++\<close>, \<open>atEnd\<close> the test
  \<open>currentTokenIndex >= tokens.length\<close>, and \<open>token\<close> the token under the index.
\<close>

definition advance :: "FileStructureParser \<Rightarrow> FileStructureParser" where
  "advance s = s\<lparr>currentTokenIndex := currentTokenIndex s + 1\<rparr>"

definition atEnd :: "FileStructureParser \<Rightarrow> bool" where
  "atEnd s = (currentTokenIndex s \<ge> length (tokens s))"

definition token :: "FileStructureParser \<Rightarrow> PDFToken" where
  "token s = tokens s ! currentTokenIndex s"

definition nextToken :: "FileStructureParser \<Rightarrow> PDFToken option \<times> FileStructureParser" where
  "nextToken s = (if atEnd s then (None, s) else (Some (token s), advance s))"

definition backToken :: "FileStructureParser \<Rightarrow> FileStructureParser" where
  "backToken s =
     (if currentTokenIndex s > 0 then s\<lparr>currentTokenIndex := currentTokenIndex s - 1\<rparr> else s)"

fun isINTEGER :: "PDFToken \<Rightarrow> bool" where
  "isINTEGER (INTEGER n) = True"
| "isINTEGER t = False"

fun isSTREAM :: "PDFToken \<Rightarrow> bool" where
  "isSTREAM (STREAM d) = True"
| "isSTREAM t = False"

fun integerValue :: "PDFToken \<Rightarrow> int" where
  "integerValue (INTEGER n) = n"
| "integerValue t = 0"

definition parseIndirectReference :: "FileStructureParser \<Rightarrow> PDFObject \<times> FileStructureParser" where
  "parseIndirectReference s =
     (let objectNumber = integerValue (token s);
          s1 = advance s;
          generationNumber = integerValue (token s1);
          s2 = advance s1;
          s3 = advance s2
      in (PReference objectNumber generationNumber, s3))"

definition parseStream ::
  "(jsstring \<times> PDFObject) list \<Rightarrow> FileStructureParser \<Rightarrow> PDFObject \<times> FileStructureParser" where
  "parseStream dictionary s =
     (case token s of
        STREAM streamData \<Rightarrow> (PStream dictionary streamData, advance s)
      | _ \<Rightarrow> (PStream dictionary [], advance s))"

text \<open>
  The recursive descent. Every function returns the parser state with its result, also
  when it raises. \<open>parseArray_loop\<close> and \<open>parseDictionary_loop\<close> are the \<open>while\<close>
  loops of \<open>parseArray\<close> and \<open>parseDictionary\<close>. Reading \<open>tokens[i].type\<close> past the
  end of the array raises \<open>TypeError\<close>; the \<open>assert\<close> of the console raises nothing.
  \<open>integerValue\<close> is the value of an integer token: the source reads it once more with
  \<open>parseInt\<close>, which gives the same integer below ten to the power 21 in absolute
  value and the leading digits of the exponent form from there on. An indirect object is
  returned by value, with the fields of the object that the source both stores in the
  table and returns; the parser writes to no stored object afterwards, so the two agree
  for as long as the parser runs, and the copy does not follow what a resolver later
  writes to the table entry.
\<close>

function
    parseNextObject :: "FileStructureParser \<Rightarrow> (error + PDFObject) \<times> FileStructureParser"
and parseArray :: "FileStructureParser \<Rightarrow> (error + PDFObject) \<times> FileStructureParser"
and parseArray_loop ::
      "PDFObject list \<Rightarrow> FileStructureParser \<Rightarrow> (error + PDFObject list) \<times> FileStructureParser"
and parseDictionary :: "FileStructureParser \<Rightarrow> (error + PDFObject) \<times> FileStructureParser"
and parseDictionary_loop ::
      "(jsstring \<times> PDFObject) list \<Rightarrow> FileStructureParser \<Rightarrow>
       (error + (jsstring \<times> PDFObject) list) \<times> FileStructureParser"
and parseIndirectObject :: "FileStructureParser \<Rightarrow> (error + PDFObject) \<times> FileStructureParser"
where
  "parseNextObject s =
     (if atEnd s then (Inr PNull, s)
      else
        (case token s of
           BOOLEAN b \<Rightarrow> (Inr (PBoolean b), advance s)
         | REAL x \<Rightarrow> (Inr (PNumber x), advance s)
         | STRING x \<Rightarrow> (Inr (PString x), advance s)
         | HEX_STRING x \<Rightarrow> (Inr (PString x), advance s)
         | NULL \<Rightarrow> (Inr PNull, advance s)
         | NAME x \<Rightarrow> (Inr (PString (47 # x)), advance s)
         | ARRAY_START \<Rightarrow> parseArray s
         | DICT_START \<Rightarrow> parseDictionary s
         | INTEGER n \<Rightarrow>
             if currentTokenIndex s + 2 < length (tokens s)
                \<and> isINTEGER (tokens s ! (currentTokenIndex s + 1))
                \<and> tokens s ! (currentTokenIndex s + 2) = OBJ_START
             then parseIndirectObject s
             else if currentTokenIndex s + 2 < length (tokens s)
                \<and> isINTEGER (tokens s ! (currentTokenIndex s + 1))
                \<and> tokens s ! (currentTokenIndex s + 2) = INDIRECT_REFERENCE
             then (case parseIndirectReference s of (r, s1) \<Rightarrow> (Inr r, s1))
             else (Inr (PNumber (of_int n)), advance s)
         | t \<Rightarrow> (Inl (UnexpectedToken t), s)))"
| "parseArray s =
     (if atEnd s then (Inl TypeError, s)
      else
        (case parseArray_loop [] (advance s) of
           (Inl e, s1) \<Rightarrow> (Inl e, s1)
         | (Inr array, s1) \<Rightarrow> (Inr (PArray array), if \<not> atEnd s1 then advance s1 else s1)))"
| "parseArray_loop array s =
     (if atEnd s \<or> token s = ARRAY_END then (Inr array, s)
      else
        (case parseNextObject s of
           (Inl e, s1) \<Rightarrow> (Inl e, s1)
         | (Inr item, s1) \<Rightarrow> parseArray_loop (array @ [item]) s1))"
| "parseDictionary s =
     (if atEnd s then (Inl TypeError, s)
      else
        (case parseDictionary_loop [] (advance s) of
           (Inl e, s1) \<Rightarrow> (Inl e, s1)
         | (Inr dictionary, s1) \<Rightarrow>
             (let s2 = (if \<not> atEnd s1 then advance s1 else s1) in
              if \<not> atEnd s2 \<and> isSTREAM (token s2)
              then (case parseStream dictionary s2 of (r, s3) \<Rightarrow> (Inr r, s3))
              else (Inr (PDictionary dictionary), s2))))"
| "parseDictionary_loop dictionary s =
     (if atEnd s \<or> token s = DICT_END then (Inr dictionary, s)
      else
        (case token s of
           NAME key \<Rightarrow>
             (if atEnd (advance s) then parseDictionary_loop dictionary (advance s)
              else
                (case parseNextObject (advance s) of
                   (Inl e, s2) \<Rightarrow> (Inl e, s2)
                 | (Inr v, s2) \<Rightarrow> parseDictionary_loop (AList.update key v dictionary) s2))
         | _ \<Rightarrow> parseDictionary_loop dictionary (advance s)))"
| "parseIndirectObject s =
     (if currentTokenIndex s + 2 \<ge> length (tokens s) then (Inl TypeError, s)
      else
        (let objectNumber = integerValue (token s);
             s1 = advance s;
             generationNumber = integerValue (token s1);
             s2 = advance s1;
             s3 = advance s2
         in case parseNextObject s3 of
              (Inl e, s4) \<Rightarrow> (Inl e, s4)
            | (Inr object, s4) \<Rightarrow>
                (let s5 = (if \<not> atEnd s4 \<and> token s4 = OBJ_END then advance s4 else s4);
                     indirectObject = \<lparr>objectNumber = objectNumber,
                                       generationNumber = generationNumber, value = object\<rparr>
                 in (Inr (PIndirect objectNumber generationNumber object),
                     s5\<lparr>indirectObjects :=
                          AList.update (refKey objectNumber generationNumber) indirectObject
                            (indirectObjects s5)\<rparr>))))"
  by pat_completeness auto

text \<open>
  Termination: the loops go on in the state that \<open>parseNextObject\<close> leaves, so the
  proof needs that a call keeps the tokens and, when it returns a value from inside the
  token array, moves the index forward.
\<close>

definition keeps :: "FileStructureParser \<Rightarrow> (error + 'a) \<times> FileStructureParser \<Rightarrow> bool" where
  "keeps s r = (tokens (snd r) = tokens s \<and> currentTokenIndex s \<le> currentTokenIndex (snd r))"

definition moves :: "FileStructureParser \<Rightarrow> (error + 'a) \<times> FileStructureParser \<Rightarrow> bool" where
  "moves s r = (keeps s r \<and>
     (\<forall>v. fst r = Inr v \<longrightarrow> \<not> atEnd s \<longrightarrow> currentTokenIndex s < currentTokenIndex (snd r)))"

lemma advance_simps [simp]:
  "tokens (advance s) = tokens s"
  "currentTokenIndex (advance s) = currentTokenIndex s + 1"
  by (simp_all add: advance_def)

lemma parseIndirectReference_moves [simp]:
  "tokens (snd (parseIndirectReference s)) = tokens s"
  "currentTokenIndex (snd (parseIndirectReference s)) = currentTokenIndex s + 3"
  by (simp_all add: parseIndirectReference_def Let_def)

lemma parseStream_moves [simp]:
  "tokens (snd (parseStream d s)) = tokens s"
  "currentTokenIndex (snd (parseStream d s)) = currentTokenIndex s + 1"
  by (simp_all add: parseStream_def split: PDFToken.splits)

lemma parseIndirectReference_result:
  "parseIndirectReference s = (r, s') \<Longrightarrow>
   tokens s' = tokens s \<and> currentTokenIndex s' = currentTokenIndex s + 3"
  by (auto simp: parseIndirectReference_def Let_def)

lemma parseStream_result:
  "parseStream d s = (r, s') \<Longrightarrow>
   tokens s' = tokens s \<and> currentTokenIndex s' = currentTokenIndex s + 1"
  by (auto simp: parseStream_def split: PDFToken.splits)

lemma moves_partial:
  shows "parseNextObject_parseArray_parseArray_loop_parseDictionary_parseDictionary_loop_parseIndirectObject_dom
           (Inl (Inl s)) \<Longrightarrow> moves s (parseNextObject s)"
    and "parseNextObject_parseArray_parseArray_loop_parseDictionary_parseDictionary_loop_parseIndirectObject_dom
           (Inl (Inr (Inl s))) \<Longrightarrow> moves s (parseArray s)"
    and "parseNextObject_parseArray_parseArray_loop_parseDictionary_parseDictionary_loop_parseIndirectObject_dom
           (Inl (Inr (Inr (array, s)))) \<Longrightarrow> keeps s (parseArray_loop array s)"
    and "parseNextObject_parseArray_parseArray_loop_parseDictionary_parseDictionary_loop_parseIndirectObject_dom
           (Inr (Inl s)) \<Longrightarrow> moves s (parseDictionary s)"
    and "parseNextObject_parseArray_parseArray_loop_parseDictionary_parseDictionary_loop_parseIndirectObject_dom
           (Inr (Inr (Inl (dictionary, s)))) \<Longrightarrow> keeps s (parseDictionary_loop dictionary s)"
    and "parseNextObject_parseArray_parseArray_loop_parseDictionary_parseDictionary_loop_parseIndirectObject_dom
           (Inr (Inr (Inr s))) \<Longrightarrow> moves s (parseIndirectObject s)"
proof (induct s and s and array s and s and dictionary s and s
       rule: parseNextObject_parseArray_parseArray_loop_parseDictionary_parseDictionary_loop_parseIndirectObject.pinduct)
  case (1 s)
  show ?case
    apply (subst parseNextObject.psimps[OF 1(1)])
    using 1(2-)
    apply (auto simp: moves_def keeps_def atEnd_def split: PDFToken.splits prod.splits
                dest!: parseIndirectReference_result)
    done
next
  case (2 s)
  show ?case
    apply (subst parseArray.psimps[OF 2(1)])
    using 2(2-)
    apply (auto simp: moves_def keeps_def atEnd_def split: prod.splits sum.splits)
    done
next
  case (3 array s)
  show ?case
    apply (subst parseArray_loop.psimps[OF 3(1)])
    using 3(2-)
    apply (auto simp: moves_def keeps_def atEnd_def split: prod.splits sum.splits)
    done
next
  case (4 s)
  show ?case
    apply (subst parseDictionary.psimps[OF 4(1)])
    using 4(2-)
    apply (auto simp: moves_def keeps_def atEnd_def Let_def split: prod.splits sum.splits
                dest!: parseStream_result)
    done
next
  case (5 dictionary s)
  note eq = parseDictionary_loop.psimps[OF 5(1)]
  show ?case
  proof (cases "atEnd s \<or> token s = DICT_END")
    case True
    then show ?thesis by (simp add: eq keeps_def)
  next
    case False
    show ?thesis
    proof (cases "token s")
      case (NAME key)
      show ?thesis
      proof (cases "atEnd (advance s)")
        case True
        from 5(5)[OF False NAME True] False NAME True show ?thesis
          by (simp add: eq keeps_def)
      next
        case inside: False
        have m: "moves (advance s) (parseNextObject (advance s))"
          by (rule 5(6)[OF False NAME inside])
        obtain x y where xy: "parseNextObject (advance s) = (x, y)"
          by (cases "parseNextObject (advance s)")
        show ?thesis
        proof (cases x)
          case (Inl e)
          with m xy False NAME inside show ?thesis
            by (simp add: eq keeps_def moves_def)
        next
          case (Inr v)
          from 5(7)[OF False NAME inside xy[symmetric] Inr] m xy Inr False NAME inside
          show ?thesis
            by (simp add: eq keeps_def moves_def)
        qed
      qed
    qed (use False 5(2-) in \<open>auto simp: eq keeps_def\<close>)
  qed
next
  case (6 s)
  note eq = parseIndirectObject.psimps[OF 6(1)]
  show ?case
  proof (cases "length (tokens s) \<le> currentTokenIndex s + 2")
    case True
    then show ?thesis by (simp add: eq moves_def keeps_def)
  next
    case False
    have m: "moves (advance (advance (advance s))) (parseNextObject (advance (advance (advance s))))"
      by (rule 6(2)[OF False refl refl refl refl refl])
    obtain x y where xy: "parseNextObject (advance (advance (advance s))) = (x, y)"
      by (cases "parseNextObject (advance (advance (advance s)))")
    with m False show ?thesis
      by (cases x) (auto simp: eq moves_def keeps_def atEnd_def Let_def)
  qed
qed

lemma parseNextObject_progress:
  assumes "parseNextObject_parseArray_parseArray_loop_parseDictionary_parseDictionary_loop_parseIndirectObject_dom
            (Inl (Inl s))"
      and "(Inr b, y) = parseNextObject s"
      and "\<not> atEnd s"
  shows "length (tokens y) - currentTokenIndex y < length (tokens s) - currentTokenIndex s"
proof -
  from assms(2) have "parseNextObject s = (Inr b, y)" by simp
  with moves_partial(1)[OF assms(1)] assms(3) show ?thesis
    by (auto simp: moves_def keeps_def atEnd_def)
qed

lemma parser_total:
  "All parseNextObject_parseArray_parseArray_loop_parseDictionary_parseDictionary_loop_parseIndirectObject_dom"
proof (relation "inv_image (measure id <*lex*> measure id) (\<lambda>x. case x of
      Inl (Inl s) \<Rightarrow> (length (tokens s) - currentTokenIndex s, 1)
    | Inl (Inr (Inl s)) \<Rightarrow> (length (tokens s) - currentTokenIndex s, 0)
    | Inl (Inr (Inr (array, s))) \<Rightarrow> (length (tokens s) - currentTokenIndex s, 2)
    | Inr (Inl s) \<Rightarrow> (length (tokens s) - currentTokenIndex s, 0)
    | Inr (Inr (Inl (dictionary, s))) \<Rightarrow> (length (tokens s) - currentTokenIndex s, 2)
    | Inr (Inr (Inr s)) \<Rightarrow> (length (tokens s) - currentTokenIndex s, 0))", goal_cases)
  case 1
  show ?case by (intro wf_inv_image wf_lex_prod wf_measure)
qed (auto simp: atEnd_def dest!: parseNextObject_progress)

termination parseNextObject
  by (rule parser_total)

declare parseNextObject.simps [simp del] parseArray.simps [simp del]
  parseArray_loop.simps [simp del] parseDictionary.simps [simp del]
  parseDictionary_loop.simps [simp del] parseIndirectObject.simps [simp del]

lemmas parser_moves = moves_partial[OF parser_total[THEN spec]]

lemma nextToken_result:
  "nextToken s = (t, s') \<Longrightarrow>
   tokens s' = tokens s \<and>
   (case t of None \<Rightarrow> s' = s \<and> atEnd s
            | Some tok \<Rightarrow> \<not> atEnd s \<and> token s = tok \<and> s' = advance s)"
  by (auto simp: nextToken_def split: if_splits)

text \<open>The body: objects up to the keyword \<open>xref\<close> or the end of the tokens.\<close>

function parseBody :: "FileStructureParser \<Rightarrow> (error + unit) \<times> FileStructureParser" where
  "parseBody s =
     (if atEnd s then (Inr (), s)
      else if token s = KEYWORD (js ''xref'') then (Inr (), s)
      else
        (case parseNextObject s of
           (Inl e, s1) \<Rightarrow> (Inl e, s1)
         | (Inr object, s1) \<Rightarrow>
             parseBody (if object \<noteq> PNull then s1\<lparr>objects := objects s1 @ [object]\<rparr> else s1)))"
  by pat_completeness auto
termination
proof (relation "measure (\<lambda>s. length (tokens s) - currentTokenIndex s)", goal_cases)
  case (2 s x y b)
  from 2 have "parseNextObject s = (Inr b, y)" by simp
  with parser_moves(1)[of s] 2 show ?case
    by (auto simp: moves_def keeps_def atEnd_def)
qed simp

declare parseBody.simps [simp del]

text \<open>
  The cross-reference table: \<open>parseXRefEntries\<close> is the \<open>for\<close> loop over the entries
  of one subsection, \<open>parseXRefTable\<close> the \<open>while\<close> loop over the subsections.
\<close>

function parseXRefEntries ::
  "int \<Rightarrow> int \<Rightarrow> int \<Rightarrow> FileStructureParser \<Rightarrow> (error + unit) \<times> FileStructureParser" where
  "parseXRefEntries i count startObjectId s =
     (if i < count then
        (case nextToken s of
           (Some (INTEGER offset'), s1) \<Rightarrow>
             (case nextToken s1 of
                (Some (INTEGER generationNumber'), s2) \<Rightarrow>
                  (case nextToken s2 of
                     (Some (KEYWORD flag), s3) \<Rightarrow>
                       parseXRefEntries (i + 1) count startObjectId
                         (s3\<lparr>xrefTable :=
                              AList.update (startObjectId + i)
                                \<lparr>offset = offset', generation = generationNumber',
                                   inUse = (flag = js ''n'')\<rparr>
                                (xrefTable s3)\<rparr>)
                   | (_, s3) \<Rightarrow> (Inl ExpectedInUseFlag, s3))
              | (_, s2) \<Rightarrow> (Inl ExpectedGenerationNumber, s2))
         | (_, s1) \<Rightarrow> (Inl ExpectedOffset, s1))
      else (Inr (), s))"
  by pat_completeness auto
termination
  by (relation "measure (\<lambda>(i, count, startObjectId, s). nat (count - i))") auto

declare parseXRefEntries.simps [simp del]

lemma parseXRefEntries_keeps: "keeps s (parseXRefEntries i count startObjectId s)"
proof (induction i count startObjectId s rule: parseXRefEntries.induct)
  case (1 i count startObjectId s)
  note eq = parseXRefEntries.simps[of i count startObjectId s]
  show ?case
  proof (cases "i < count")
    case False
    then show ?thesis by (simp add: eq keeps_def)
  next
    case True
    obtain t1 s1 where n1: "nextToken s = (t1, s1)" by (cases "nextToken s")
    obtain t2 s2 where n2: "nextToken s1 = (t2, s2)" by (cases "nextToken s1")
    obtain t3 s3 where n3: "nextToken s2 = (t3, s3)" by (cases "nextToken s2")
    from nextToken_result[OF n1] nextToken_result[OF n2] nextToken_result[OF n3]
    have k: "tokens s1 = tokens s" "tokens s2 = tokens s" "tokens s3 = tokens s"
            "currentTokenIndex s \<le> currentTokenIndex s1"
            "currentTokenIndex s \<le> currentTokenIndex s2"
            "currentTokenIndex s \<le> currentTokenIndex s3"
      by (auto split: option.splits)
    show ?thesis
    proof (cases "\<exists>a b c. t1 = Some (INTEGER a) \<and> t2 = Some (INTEGER b) \<and> t3 = Some (KEYWORD c)")
      case False
      with True n1 n2 n3 k show ?thesis
        by (auto simp: eq keeps_def split: option.splits PDFToken.splits)
    next
      case ex: True
      then obtain a b c where t: "t1 = Some (INTEGER a)" "t2 = Some (INTEGER b)" "t3 = Some (KEYWORD c)"
        by blast
      from "1.IH"[OF True n1[symmetric] _ _ n2[symmetric] _ _ n3[symmetric]] t
      have "keeps (s3\<lparr>xrefTable := AList.update (startObjectId + i)
                \<lparr>offset = a, generation = b, inUse = (c = js ''n'')\<rparr> (xrefTable s3)\<rparr>)
              (parseXRefEntries (i + 1) count startObjectId
                (s3\<lparr>xrefTable := AList.update (startObjectId + i)
                \<lparr>offset = a, generation = b, inUse = (c = js ''n'')\<rparr> (xrefTable s3)\<rparr>))"
        by simp
      with True n1 n2 n3 k t show ?thesis
        by (simp add: eq keeps_def)
    qed
  qed
qed

function parseXRefTable :: "FileStructureParser \<Rightarrow> (error + unit) \<times> FileStructureParser" where
  "parseXRefTable s =
     (case nextToken s of
        (None, s1) \<Rightarrow> (Inr (), s1)
      | (Some (INTEGER startObjectId), s1) \<Rightarrow>
          (case nextToken s1 of
             (Some (INTEGER count), s2) \<Rightarrow>
               (case parseXRefEntries 0 count startObjectId s2 of
                  (Inl e, s3) \<Rightarrow> (Inl e, s3)
                | (Inr u, s3) \<Rightarrow> parseXRefTable s3)
           | (_, s2) \<Rightarrow> (Inl ExpectedCount, s2))
      | (Some t, s1) \<Rightarrow> (Inr (), backToken s1))"
  by pat_completeness auto
termination
proof (relation "measure (\<lambda>s. length (tokens s) - currentTokenIndex s)", goal_cases)
  case (2 s t1 s1 tok startObjectId t2 s2 tok2 count r s3 u)
  from 2 have n1: "nextToken s = (Some (INTEGER startObjectId), s1)"
    and n2: "nextToken s1 = (Some (INTEGER count), s2)"
    and e: "parseXRefEntries 0 count startObjectId s2 = (Inr u, s3)"
    by simp_all
  from nextToken_result[OF n1] nextToken_result[OF n2] parseXRefEntries_keeps[of s2 0 count startObjectId] e
  show ?case
    by (auto simp: keeps_def atEnd_def)
qed simp

declare parseXRefTable.simps [simp del]

lemma backToken_after_next:
  "nextToken s = (Some t, s1) \<Longrightarrow> backToken s1 = s"
  by (auto simp: nextToken_def backToken_def advance_def split: if_splits)

lemma parseXRefTable_keeps: "keeps s (parseXRefTable s)"
proof (induction s rule: parseXRefTable.induct)
  case (1 s)
  note eq = parseXRefTable.simps[of s]
  obtain t1 s1 where n1: "nextToken s = (t1, s1)" by (cases "nextToken s")
  obtain t2 s2 where n2: "nextToken s1 = (t2, s2)" by (cases "nextToken s1")
  note r1 = nextToken_result[OF n1] and r2 = nextToken_result[OF n2]
  show ?case
  proof (cases "\<exists>a b. t1 = Some (INTEGER a) \<and> t2 = Some (INTEGER b)")
    case False
    with n1 n2 r1 r2 show ?thesis
      by (auto simp: eq keeps_def backToken_after_next split: option.splits PDFToken.splits)
  next
    case True
    then obtain a b where t: "t1 = Some (INTEGER a)" "t2 = Some (INTEGER b)" by blast
    obtain r s3 where e: "parseXRefEntries 0 b a s2 = (r, s3)"
      by (cases "parseXRefEntries 0 b a s2")
    from parseXRefEntries_keeps[of s2 0 b a] e
    have k3: "tokens s3 = tokens s2" "currentTokenIndex s2 \<le> currentTokenIndex s3"
      by (simp_all add: keeps_def)
    show ?thesis
    proof (cases r)
      case (Inl err)
      with n1 n2 r1 r2 t e k3 show ?thesis
        by (auto simp: eq keeps_def)
    next
      case (Inr u)
      from "1.IH"[OF n1[symmetric] _ _ n2[symmetric] _ _ e[symmetric] Inr] t
      have "keeps s3 (parseXRefTable s3)" by simp
      with n1 n2 r1 r2 t e k3 Inr show ?thesis
        by (auto simp: eq keeps_def)
    qed
  qed
qed

text \<open>Truthiness of a value of the language, as the conditional operator tests it.\<close>

fun truthy :: "PDFObject \<Rightarrow> bool" where
  "truthy PNull = False"
| "truthy (PNumber x) = (x \<noteq> 0)"
| "truthy (PBoolean b) = b"
| "truthy (PString x) = (x \<noteq> [])"
| "truthy obj = True"

text \<open>
  The trailer record built from the parsed dictionary. No key is looked at before it is
  stored; only \<open>Info\<close> goes through a conditional.
\<close>

definition makeTrailer :: "(jsstring \<times> PDFObject) list \<Rightarrow> TrailerDictionary" where
  "makeTrailer parsedDictionary' =
     \<lparr>Size = map_of parsedDictionary' (js ''Size''),
      Root = map_of parsedDictionary' (js ''Root''),
      Info = (case map_of parsedDictionary' (js ''Info'') of
                None \<Rightarrow> None
              | Some info \<Rightarrow> if truthy info then Some info else None),
      ID = map_of parsedDictionary' (js ''ID''),
      Encrypt = map_of parsedDictionary' (js ''Encrypt''),
      Prev = map_of parsedDictionary' (js ''Prev''),
      parsedDictionary = parsedDictionary'\<rparr>"

text \<open>
  \<open>parseTrailer\<close>. A dictionary followed by a stream token comes back from
  \<open>parseDictionary\<close> as a stream object, on which \<open>get\<close> is not a function.
\<close>

definition notINTEGER :: "PDFToken option \<Rightarrow> bool" where
  "notINTEGER t = (case t of None \<Rightarrow> True | Some tok \<Rightarrow> \<not> isINTEGER tok)"

definition parseTrailer :: "FileStructureParser \<Rightarrow> (error + unit) \<times> FileStructureParser" where
  "parseTrailer s =
     (case nextToken s of (t1, s1) \<Rightarrow>
      if t1 \<noteq> Some (KEYWORD (js ''trailer'')) then (Inl ExpectedTrailerKeyword, s1)
      else
        (case nextToken s1 of (t2, s2) \<Rightarrow>
         if t2 \<noteq> Some DICT_START then (Inl ExpectedDictionaryStart, s2)
         else
           (case parseDictionary (backToken s2) of
              (Inl e, s3) \<Rightarrow> (Inl e, s3)
            | (Inr parsed, s3) \<Rightarrow>
                (case parsed of
                   PDictionary parsedDictionary' \<Rightarrow>
                     (case nextToken (s3\<lparr>trailer := Some (makeTrailer parsedDictionary')\<rparr>) of
                        (t5, s5) \<Rightarrow>
                          if t5 \<noteq> Some (KEYWORD (js ''startxref''))
                          then (Inl ExpectedStartxrefKeyword, s5)
                          else
                            (case nextToken s5 of (t6, s6) \<Rightarrow>
                             if notINTEGER t6 then (Inl ExpectedIntegerAfterStartxref, s6)
                             else (Inr (), s6)))
                 | _ \<Rightarrow> (Inl TypeError, s3)))))"

definition parseXRefAndTrailer ::
  "FileStructureParser \<Rightarrow> (error + unit) \<times> FileStructureParser" where
  "parseXRefAndTrailer s =
     (case nextToken s of (t1, s1) \<Rightarrow>
      if t1 \<noteq> Some (KEYWORD (js ''xref'')) then (Inl ExpectedXrefKeyword, s1)
      else
        (case parseXRefTable s1 of
           (Inl e, s2) \<Rightarrow> (Inl e, s2)
         | (Inr u, s2) \<Rightarrow> parseTrailer s2))"

lemma nextToken_keeps:
  "nextToken s = (t, s') \<Longrightarrow>
   tokens s' = tokens s \<and> currentTokenIndex s \<le> currentTokenIndex s'"
  by (auto simp: nextToken_def split: if_splits)

lemma nextToken_Some:
  "nextToken s = (Some t, s') \<Longrightarrow>
   tokens s' = tokens s \<and> currentTokenIndex s' = currentTokenIndex s + 1 \<and> \<not> atEnd s"
  by (auto simp: nextToken_def split: if_splits)

lemma parseTrailer_keeps: "keeps s (parseTrailer s)"
proof -
  obtain t1 s1 where n1: "nextToken s = (t1, s1)" by (cases "nextToken s")
  obtain t2 s2 where n2: "nextToken s1 = (t2, s2)" by (cases "nextToken s1")
  obtain r s3 where d: "parseDictionary (backToken s2) = (r, s3)"
    by (cases "parseDictionary (backToken s2)")
  from parser_moves(4)[of "backToken s2"] d
  have k3: "tokens s3 = tokens (backToken s2)"
           "currentTokenIndex (backToken s2) \<le> currentTokenIndex s3"
    by (simp_all add: moves_def keeps_def)
  note k1 = nextToken_keeps[OF n1]
  show ?thesis
  proof (cases "t1 = Some (KEYWORD (js ''trailer'')) \<and> t2 = Some DICT_START")
    case False
    with n1 n2 k1 nextToken_keeps[OF n2] show ?thesis
      by (auto simp: parseTrailer_def keeps_def)
  next
    case True
    with n2 have b: "backToken s2 = s1" by (simp add: backToken_after_next)
    show ?thesis
    proof (cases r)
      case (Inl e)
      with True n1 n2 d k1 k3 b show ?thesis
        by (simp add: parseTrailer_def keeps_def)
    next
      case (Inr parsed)
      show ?thesis
      proof (cases parsed)
        case (PDictionary pd)
        let ?s4 = "s3\<lparr>trailer := Some (makeTrailer pd)\<rparr>"
        obtain t5 s5 where n5: "nextToken ?s4 = (t5, s5)" by (cases "nextToken ?s4")
        obtain t6 s6 where n6: "nextToken s5 = (t6, s6)" by (cases "nextToken s5")
        from nextToken_keeps[OF n5] nextToken_keeps[OF n6] True n1 n2 d k1 k3 b Inr PDictionary n5 n6
        show ?thesis
          by (simp add: parseTrailer_def keeps_def)
      qed (use True n1 n2 d k1 k3 b Inr in \<open>simp_all add: parseTrailer_def keeps_def\<close>)
    qed
  qed
qed

lemma parseXRefAndTrailer_moves:
  "keeps s (parseXRefAndTrailer s) \<and>
   (fst (parseXRefAndTrailer s) = Inr u \<longrightarrow>
      \<not> atEnd s \<and> currentTokenIndex s < currentTokenIndex (snd (parseXRefAndTrailer s)))"
proof -
  obtain t1 s1 where n1: "nextToken s = (t1, s1)" by (cases "nextToken s")
  obtain r s2 where x: "parseXRefTable s1 = (r, s2)" by (cases "parseXRefTable s1")
  from parseXRefTable_keeps[of s1] x
  have k2: "tokens s2 = tokens s1" "currentTokenIndex s1 \<le> currentTokenIndex s2"
    by (simp_all add: keeps_def)
  from parseTrailer_keeps[of s2]
  have k3: "tokens (snd (parseTrailer s2)) = tokens s2"
           "currentTokenIndex s2 \<le> currentTokenIndex (snd (parseTrailer s2))"
    by (simp_all add: keeps_def)
  show ?thesis
  proof (cases "t1 = Some (KEYWORD (js ''xref''))")
    case False
    with n1 nextToken_keeps[OF n1] show ?thesis
      by (simp add: parseXRefAndTrailer_def keeps_def)
  next
    case True
    with n1 have "tokens s1 = tokens s" "currentTokenIndex s1 = currentTokenIndex s + 1" "\<not> atEnd s"
      using nextToken_Some[of s "KEYWORD (js ''xref'')" s1] by simp_all
    with True n1 x k2 k3 show ?thesis
      by (cases r) (simp_all add: parseXRefAndTrailer_def keeps_def)
  qed
qed

text \<open>
  The header: the version is the first match of the pattern \<open>%PDF-\<close>, digits, a dot,
  digits in the header text, or the whole text when nothing matches.
\<close>

definition isDigit :: "nat \<Rightarrow> bool" where
  "isDigit c = (48 \<le> c \<and> c \<le> 57)"

definition matchVersion :: "jsstring \<Rightarrow> jsstring option" where
  "matchVersion str =
     (if take 5 str \<noteq> js ''%PDF-'' then None
      else
        (let major = takeWhile isDigit (drop 5 str);
             rest = dropWhile isDigit (drop 5 str);
             minor = takeWhile isDigit (drop 1 rest)
         in if major \<noteq> [] \<and> take 1 rest = [46] \<and> minor \<noteq> []
            then Some (major @ [46] @ minor) else None))"

fun findVersion :: "jsstring \<Rightarrow> jsstring option" where
  "findVersion [] = None"
| "findVersion (c # cs) =
     (case matchVersion (c # cs) of Some v \<Rightarrow> Some v | None \<Rightarrow> findVersion cs)"

definition parseHeader :: "FileStructureParser \<Rightarrow> (error + unit) \<times> FileStructureParser" where
  "parseHeader s =
     (case nextToken s of (t, s1) \<Rightarrow>
      (case t of
         Some (HEADER headerValue) \<Rightarrow>
           (Inr (), s1\<lparr>version := (case findVersion headerValue of
                                        Some v \<Rightarrow> v | None \<Rightarrow> headerValue)\<rparr>)
       | _ \<Rightarrow> (Inl HeaderNotFound, s1)))"

text \<open>\<open>parse_loop\<close> is the \<open>do ... while\<close> loop of \<open>parse\<close>.\<close>

function parse_loop :: "FileStructureParser \<Rightarrow> (error + unit) \<times> FileStructureParser" where
  "parse_loop s =
     (case parseBody s of
        (Inl e, s1) \<Rightarrow> (Inl e, s1)
      | (Inr u, s1) \<Rightarrow>
          (case parseXRefAndTrailer s1 of
             (Inl e, s2) \<Rightarrow> (Inl e, s2)
           | (Inr u', s2) \<Rightarrow>
               if atEnd s2 \<or> token s2 = EOF then (Inr (), s2) else parse_loop s2))"
  by pat_completeness auto

lemma parseBody_keeps: "keeps s (parseBody s)"
proof (induction s rule: parseBody.induct)
  case (1 s)
  note eq = parseBody.simps[of s]
  show ?case
  proof (cases "atEnd s \<or> token s = KEYWORD (js ''xref'')")
    case True
    then show ?thesis by (auto simp: eq keeps_def)
  next
    case False
    obtain x y where p: "parseNextObject s = (x, y)" by (cases "parseNextObject s")
    from parser_moves(1)[of s] p
    have k: "tokens y = tokens s" "currentTokenIndex s \<le> currentTokenIndex y"
      by (simp_all add: moves_def keeps_def)
    show ?thesis
    proof (cases x)
      case (Inl e)
      with False p k show ?thesis by (simp add: eq keeps_def)
    next
      case (Inr object)
      let ?s' = "if object \<noteq> PNull then y\<lparr>objects := objects y @ [object]\<rparr> else y"
      from False have "\<not> atEnd s" "token s \<noteq> KEYWORD (js ''xref'')" by simp_all
      from "1.IH"[OF this p[symmetric] Inr] have "keeps ?s' (parseBody ?s')" .
      with False p k Inr show ?thesis
        by (auto simp: eq keeps_def)
    qed
  qed
qed

termination parse_loop
proof (relation "measure (\<lambda>s. length (tokens s) - currentTokenIndex s)", goal_cases)
  case (2 s x y b xa ya ba)
  from 2 have b: "parseBody s = (Inr b, y)" and t: "parseXRefAndTrailer y = (Inr ba, ya)"
    by simp_all
  from parseBody_keeps[of s] b
  have "tokens y = tokens s" "currentTokenIndex s \<le> currentTokenIndex y"
    by (simp_all add: keeps_def)
  moreover from parseXRefAndTrailer_moves[of y ba] t
  have "tokens ya = tokens y" "\<not> atEnd y" "currentTokenIndex y < currentTokenIndex ya"
    by (simp_all add: keeps_def)
  ultimately show ?case by (simp add: atEnd_def)
qed simp

declare parse_loop.simps [simp del]

definition parse :: "FileStructureParser \<Rightarrow> (error + unit) \<times> FileStructureParser" where
  "parse s =
     (case parseHeader s of
        (Inl e, s1) \<Rightarrow> (Inl e, s1)
      | (Inr u, s1) \<Rightarrow>
          (case parse_loop s1 of
             (Inl e, s2) \<Rightarrow> (Inl e, s2)
           | (Inr u', s2) \<Rightarrow>
               (case nextToken s2 of (t, s3) \<Rightarrow>
                if t \<noteq> Some EOF then (Inl ExpectedEOFMarker, s3) else (Inr (), s3))))"


text \<open>The tokens of a file with an empty body whose trailer dictionary has only \<open>Info\<close>.\<close>

definition trailerTokens :: "PDFToken list" where
  "trailerTokens =
     [HEADER (js ''%PDF-1.7''),
      KEYWORD (js ''xref''),
      KEYWORD (js ''trailer''),
      DICT_START, NAME (js ''Info''), INTEGER 5, INTEGER 0, INDIRECT_REFERENCE, DICT_END,
      KEYWORD (js ''startxref''), INTEGER 0,
      EOF]"

lemmas parser_simps =
  parseNextObject.simps parseArray.simps parseArray_loop.simps parseDictionary.simps
  parseDictionary_loop.simps parseIndirectObject.simps parseBody.simps parseXRefTable.simps
  parseXRefEntries.simps parse_loop.simps

lemmas parser_defs =
  parse_def parseHeader_def parseXRefAndTrailer_def parseTrailer_def makeTrailer_def
  nextToken_def backToken_def advance_def atEnd_def token_def newParser_def notINTEGER_def
  parseIndirectReference_def parseStream_def matchVersion_def isDigit_def

text \<open>
  C5 (as the code has it). When the tokens at the index are the keyword \<open>trailer\<close>, a
  dictionary, the keyword \<open>startxref\<close> and an integer, \<open>parseTrailer\<close> returns, whatever
  the keys of the dictionary are. The trailer it stores has as \<open>Size\<close> and \<open>Root\<close> the
  entries of the dictionary under these keys, and \<open>undefined\<close> when the dictionary has
  none.
\<close>

theorem trailer_keys_not_checked:
  assumes "nextToken s = (Some (KEYWORD (js ''trailer'')), afterKeyword)"
      and "nextToken afterKeyword = (Some DICT_START, afterStart)"
      and "parseDictionary afterKeyword = (Inr (PDictionary d), afterDictionary)"
      and "nextToken (afterDictionary\<lparr>trailer := Some (makeTrailer d)\<rparr>)
             = (Some (KEYWORD (js ''startxref'')), afterStartxref)"
      and "nextToken afterStartxref = (Some (INTEGER n), afterInteger)"
  shows "parseTrailer s = (Inr (), afterInteger)
         \<and> trailer afterInteger = Some (makeTrailer d)
         \<and> Size (makeTrailer d) = map_of d (js ''Size'')
         \<and> Root (makeTrailer d) = map_of d (js ''Root'')"
proof -
  from assms(2) have "backToken afterStart = afterKeyword" by (rule backToken_after_next)
  moreover from assms(4,5) have "trailer afterInteger = Some (makeTrailer d)"
    by (auto simp: nextToken_def advance_def split: if_splits)
  ultimately show ?thesis
    using assms by (simp add: parseTrailer_def notINTEGER_def makeTrailer_def)
qed

text \<open>
  The theorem at the trailer of \<open>trailerTokens\<close>, where the index is 2: the dictionary
  has neither \<open>Size\<close> nor \<open>Root\<close>, and \<open>parseTrailer\<close> returns.
\<close>

theorem trailer_keys_not_checked_witness:
  "map_of [(js ''Info'', PReference 5 0)] (js ''Size'') = None
   \<and> map_of [(js ''Info'', PReference 5 0)] (js ''Root'') = None
   \<and> fst (parseTrailer ((newParser trailerTokens)\<lparr>currentTokenIndex := 2\<rparr>)) = Inr ()
   \<and> trailer (snd (parseTrailer ((newParser trailerTokens)\<lparr>currentTokenIndex := 2\<rparr>)))
       = Some (makeTrailer [(js ''Info'', PReference 5 0)])
   \<and> Size (makeTrailer [(js ''Info'', PReference 5 0)]) = None
   \<and> Root (makeTrailer [(js ''Info'', PReference 5 0)]) = None"
  using trailer_keys_not_checked[where
          s = "(newParser trailerTokens)\<lparr>currentTokenIndex := 2\<rparr>"
      and afterKeyword = "(newParser trailerTokens)\<lparr>currentTokenIndex := 3\<rparr>"
      and afterStart = "(newParser trailerTokens)\<lparr>currentTokenIndex := 4\<rparr>"
      and d = "[(js ''Info'', PReference 5 0)]"
      and afterDictionary = "(newParser trailerTokens)\<lparr>currentTokenIndex := 9\<rparr>"
      and afterStartxref = "(newParser trailerTokens)\<lparr>currentTokenIndex := 10,
                  trailer := Some (makeTrailer [(js ''Info'', PReference 5 0)])\<rparr>"
      and n = 0
      and afterInteger = "(newParser trailerTokens)\<lparr>currentTokenIndex := 11,
                  trailer := Some (makeTrailer [(js ''Info'', PReference 5 0)])\<rparr>"]
  by (simp add: trailerTokens_def parser_simps parser_defs js_def Let_def)

text \<open>
  C5 as stated fails: \<open>parse\<close> on \<open>trailerTokens\<close> completes, and the trailer it
  stores has neither \<open>Size\<close> nor \<open>Root\<close>.
\<close>

theorem trailer_without_size_counterexample:
  "fst (parse (newParser trailerTokens)) = Inr ()
   \<and> trailer (snd (parse (newParser trailerTokens)))
       = Some \<lparr>Size = None, Root = None, Info = Some (PReference 5 0), ID = None,
               Encrypt = None, Prev = None,
               parsedDictionary = [(js ''Info'', PReference 5 0)]\<rparr>
   \<and> version (snd (parse (newParser trailerTokens))) = js ''1.7''"
  by (simp add: trailerTokens_def parser_simps parser_defs js_def Let_def)

section \<open>Pages\<close>

text \<open>
  A \<open>Rectangle\<close> is a JavaScript array, and the claims about the box getters are about
  which array object a page holds and which one a getter returns. So arrays of this kind
  live in a heap: a list of arrays, an address being an index into it, and a new array
  being put at the end. An element is \<open>None\<close> where the source has \<open>undefined\<close>.
\<close>

type_synonym heap = "PDFObject option list list"

definition alloc :: "PDFObject option list \<Rightarrow> heap \<Rightarrow> nat \<times> heap" where
  "alloc array h = (length h, h @ [array])"

record PDFResources =
  Font :: PDFObject
  XObject :: PDFObject
  ExtGState :: PDFObject
  ColorSpace :: PDFObject
  Pattern :: PDFObject
  Shading :: PDFObject
  ProcSet :: PDFObject
  Properties :: PDFObject

text \<open>
  The page record. The boxes are addresses of arrays in the heap, \<open>None\<close> for
  \<open>undefined\<close>. The casts of the source check nothing, so \<open>rotate\<close>, \<open>userUnit\<close>,
  \<open>contents\<close>, \<open>annots\<close> and \<open>parent\<close> hold whatever object the dictionary has. The
  private collaborators of the page (stream parser, graphics engine, content cache) take
  no part in the claims and are left out: the constructor of \<open>ContentStreamParser\<close> has an
  empty body, and that of \<open>GraphicsEngine\<close>, which is not among the sources, is taken not
  to raise.
\<close>

record PDFPage =
  objectRef :: "int \<times> int"
  rawDict :: "(jsstring \<times> PDFObject) list"
  mediaBox :: "nat option"
  cropBox :: "nat option"
  bleedBox :: "nat option"
  trimBox :: "nat option"
  artBox :: "nat option"
  resources :: PDFResources
  contents :: "PDFObject option"
  annots :: "PDFObject option"
  rotate :: PDFObject
  userUnit :: PDFObject
  parent :: "PDFObject option"

text \<open>\<open>element obj i\<close> is \<open>obj[i]\<close> for an object cast to an array of numbers.\<close>

fun element :: "PDFObject \<Rightarrow> nat \<Rightarrow> PDFObject option" where
  "element (PArray items) i = (if i < length items then Some (items ! i) else None)"
| "element (PString str) i = (if i < length str then Some (PString [str ! i]) else None)"
| "element obj i = None"

definition isTruthy :: "PDFObject option \<Rightarrow> bool" where
  "isTruthy v = (case v of None \<Rightarrow> False | Some obj \<Rightarrow> truthy obj)"

text \<open>
  \<open>resolveBox\<close> looks the box up in the dictionary it is given, and nowhere else: its
  \<open>resolver\<close> parameter is not used. It returns a new array of four elements.
\<close>

definition resolveBox ::
  "(jsstring \<times> PDFObject) list \<Rightarrow> jsstring \<Rightarrow> heap \<Rightarrow> nat option \<times> heap" where
  "resolveBox dict boxName h =
     (case map_of dict boxName of
        None \<Rightarrow> (None, h)
      | Some boxRef \<Rightarrow>
          if \<not> truthy boxRef then (None, h)
          else
            (case alloc [element boxRef 0, element boxRef 1, element boxRef 2, element boxRef 3] h
             of (a, h') \<Rightarrow> (Some a, h')))"

text \<open>
  A call of \<open>resolver.resolveIndirectReference\<close> on a value that the source casts to a
  reference. Reading \<open>objectNumber\<close> of \<open>undefined\<close> or \<open>null\<close> raises; an object without
  the two fields gives the key \<open>undefined undefined\<close>, which no table built from object
  and generation numbers holds.
\<close>

definition resolveReference ::
  "PDFObject option \<Rightarrow> bool \<Rightarrow> bool \<Rightarrow> PDFObjectResolver \<Rightarrow>
   (error + jsstring) \<times> PDFObjectResolver" where
  "resolveReference reference isDeepResolve silently s =
     (case reference of
        None \<Rightarrow> (Inl TypeError, s)
      | Some PNull \<Rightarrow> (Inl TypeError, s)
      | Some (PReference n g) \<Rightarrow> resolveIndirectReference n g isDeepResolve silently s
      | Some (PIndirect n g v) \<Rightarrow> resolveIndirectReference n g isDeepResolve silently s
      | Some (PEntry key) \<Rightarrow>
          (case map_of (indirectObjectsMap s) key of
             None \<Rightarrow> (Inl TypeError, s)
           | Some obj \<Rightarrow>
               resolveIndirectReference (objectNumber obj) (generationNumber obj)
                 isDeepResolve silently s)
      | Some other \<Rightarrow> (Inl (UnknownReference (js ''undefined undefined'')), s))"

text \<open>The \<open>value\<close> field of the entry a resolution returned.\<close>

definition valueOf :: "jsstring \<Rightarrow> PDFObjectResolver \<Rightarrow> PDFObject option" where
  "valueOf key s = map_option value (map_of (indirectObjectsMap s) key)"

definition orNull :: "PDFObject option \<Rightarrow> PDFObject" where
  "orNull v = (case v of None \<Rightarrow> PNull | Some obj \<Rightarrow> obj)"

text \<open>
  \<open>resolveResources\<close>: the resources of the leaf or, when it has none, of its parent (one
  level up), resolved deeply. \<open>orNull\<close> is the operator \<open>?? null\<close>.
\<close>

definition resolveResources ::
  "(jsstring \<times> PDFObject) list \<Rightarrow> PDFObject option \<Rightarrow> PDFObjectResolver \<Rightarrow>
   (error + PDFResources) \<times> PDFObjectResolver" where
  "resolveResources dict parent' s =
     (case (if \<not> isTruthy (map_of dict (js ''Resources'')) \<and> isTruthy parent' then
              (case resolveReference parent' False True s of
                 (Inl e, s1) \<Rightarrow> (Inl e, s1)
               | (Inr key, s1) \<Rightarrow>
                   (case valueOf key s1 of
                      Some (PDictionary parentDict) \<Rightarrow> (Inr (map_of parentDict (js ''Resources'')), s1)
                    | parentDict \<Rightarrow>
                        if isTruthy parentDict then (Inl TypeError, s1)
                        else (Inr (map_of dict (js ''Resources'')), s1)))
            else (Inr (map_of dict (js ''Resources'')), s))
      of (Inl e, s1) \<Rightarrow> (Inl e, s1)
       | (Inr resourcesRef, s1) \<Rightarrow>
           (case resolveReference resourcesRef True True s1 of
              (Inl e, s2) \<Rightarrow> (Inl e, s2)
            | (Inr key, s2) \<Rightarrow>
                (case valueOf key s2 of
                   Some (PDictionary resourcesDict) \<Rightarrow>
                     (Inr \<lparr>Font = orNull (map_of resourcesDict (js ''Font'')),
                           XObject = orNull (map_of resourcesDict (js ''XObject'')),
                           ExtGState = orNull (map_of resourcesDict (js ''ExtGState'')),
                           ColorSpace = orNull (map_of resourcesDict (js ''ColorSpace'')),
                           Pattern = orNull (map_of resourcesDict (js ''Pattern'')),
                           Shading = orNull (map_of resourcesDict (js ''Shading'')),
                           ProcSet = orNull (map_of resourcesDict (js ''ProcSet'')),
                           Properties = orNull (map_of resourcesDict (js ''Properties''))\<rparr>, s2)
                 | _ \<Rightarrow> (Inl TypeError, s2))))"

text \<open>\<open>orElse v d\<close> is \<open>v || d\<close>. The constructor follows.\<close>

definition orElse :: "PDFObject option \<Rightarrow> PDFObject \<Rightarrow> PDFObject" where
  "orElse v d = (case v of None \<Rightarrow> d | Some obj \<Rightarrow> if truthy obj then obj else d)"

definition newPDFPage ::
  "int \<times> int \<Rightarrow> (jsstring \<times> PDFObject) list \<Rightarrow> PDFObjectResolver \<Rightarrow> heap \<Rightarrow>
   (error + PDFPage) \<times> PDFObjectResolver \<times> heap" where
  "newPDFPage objectRef' dict resolver h =
     (case resolveBox dict (js ''MediaBox'') h of (mediaBox', h1) \<Rightarrow>
      case resolveBox dict (js ''CropBox'') h1 of (cropBox', h2) \<Rightarrow>
      case resolveBox dict (js ''BleedBox'') h2 of (bleedBox', h3) \<Rightarrow>
      case resolveBox dict (js ''TrimBox'') h3 of (trimBox', h4) \<Rightarrow>
      case resolveBox dict (js ''ArtBox'') h4 of (artBox', h5) \<Rightarrow>
      case resolveResources dict (map_of dict (js ''Parent'')) resolver of
        (Inl e, resolver') \<Rightarrow> (Inl e, resolver', h5)
      | (Inr resources', resolver') \<Rightarrow>
          (Inr \<lparr>objectRef = objectRef',
                rawDict = dict,
                mediaBox = mediaBox',
                cropBox = (case cropBox' of Some a \<Rightarrow> Some a | None \<Rightarrow> mediaBox'),
                bleedBox = bleedBox',
                trimBox = trimBox',
                artBox = artBox',
                resources = resources',
                contents = map_of dict (js ''Contents''),
                annots = map_of dict (js ''Annots''),
                rotate = orElse (map_of dict (js ''Rotate'')) (PNumber 0),
                userUnit = orElse (map_of dict (js ''UserUnit'')) (PNumber 1),
                parent = map_of dict (js ''Parent'')\<rparr>,
           resolver', h5))"

text \<open>
  The box getters spread the stored array into a new one. Spreading \<open>undefined\<close> raises
  \<open>TypeError\<close>; the three optional boxes are tested first.
\<close>

definition getMediaBox :: "PDFPage \<Rightarrow> heap \<Rightarrow> (error + nat) \<times> heap" where
  "getMediaBox p h =
     (case mediaBox p of
        None \<Rightarrow> (Inl TypeError, h)
      | Some a \<Rightarrow> (case alloc (h ! a) h of (copy, h') \<Rightarrow> (Inr copy, h')))"

definition getCropBox :: "PDFPage \<Rightarrow> heap \<Rightarrow> (error + nat) \<times> heap" where
  "getCropBox p h =
     (case cropBox p of
        None \<Rightarrow> (Inl TypeError, h)
      | Some a \<Rightarrow> (case alloc (h ! a) h of (copy, h') \<Rightarrow> (Inr copy, h')))"

definition getBleedBox :: "PDFPage \<Rightarrow> heap \<Rightarrow> nat option \<times> heap" where
  "getBleedBox p h =
     (case bleedBox p of
        None \<Rightarrow> (None, h)
      | Some a \<Rightarrow> (case alloc (h ! a) h of (copy, h') \<Rightarrow> (Some copy, h')))"

definition getTrimBox :: "PDFPage \<Rightarrow> heap \<Rightarrow> nat option \<times> heap" where
  "getTrimBox p h =
     (case trimBox p of
        None \<Rightarrow> (None, h)
      | Some a \<Rightarrow> (case alloc (h ! a) h of (copy, h') \<Rightarrow> (Some copy, h')))"

definition getArtBox :: "PDFPage \<Rightarrow> heap \<Rightarrow> nat option \<times> heap" where
  "getArtBox p h =
     (case artBox p of
        None \<Rightarrow> (None, h)
      | Some a \<Rightarrow> (case alloc (h ! a) h of (copy, h') \<Rightarrow> (Some copy, h')))"

definition getRotation :: "PDFPage \<Rightarrow> PDFObject" where
  "getRotation p = rotate p"

text \<open>
  The examples: a page-tree node \<open>2 0\<close> with a media box, a rotation and resources, and
  a leaf that has only its parent.
\<close>

definition pageTable :: "(jsstring \<times> PDFIndirectObject) list" where
  "pageTable =
     [(js ''2 0'', \<lparr>objectNumber = 2, generationNumber = 0,
         value = PDictionary
           [(js ''Type'', PString (js ''Pages'')),
            (js ''MediaBox'', PArray [PNumber 0, PNumber 0, PNumber 612, PNumber 792]),
            (js ''Rotate'', PNumber 90),
            (js ''Resources'', PReference 3 0)]\<rparr>),
      (js ''3 0'', \<lparr>objectNumber = 3, generationNumber = 0,
         value = PDictionary [(js ''ProcSet'', PArray [PString (js ''PDF'')])]\<rparr>)]"

definition leafDict :: "(jsstring \<times> PDFObject) list" where
  "leafDict = [(js ''Type'', PString (js ''Page'')), (js ''Parent'', PReference 2 0)]"

lemma refKey_page: "refKey 2 0 = js ''2 0''" "refKey 3 0 = js ''3 0''"
  by (simp_all add: refKey_def numberToString_def digits.simps js_def)

lemmas page_defs = newPDFPage_def resolveBox_def resolveResources_def resolveReference_def
  valueOf_def orNull_def orElse_def isTruthy_def alloc_def newResolver_def

subsection \<open>The box getters\<close>

text \<open>
  The five getters under one name, so that one statement covers them, and the contents
  of the rectangle a getter returns, read in the heap it leaves.
\<close>

datatype BoxName = MediaBox | CropBox | BleedBox | TrimBox | ArtBox

fun storedBox :: "BoxName \<Rightarrow> PDFPage \<Rightarrow> nat option" where
  "storedBox MediaBox p = mediaBox p"
| "storedBox CropBox p = cropBox p"
| "storedBox BleedBox p = bleedBox p"
| "storedBox TrimBox p = trimBox p"
| "storedBox ArtBox p = artBox p"

fun getBox :: "BoxName \<Rightarrow> PDFPage \<Rightarrow> heap \<Rightarrow> (error + nat option) \<times> heap" where
  "getBox MediaBox p h = (case getMediaBox p h of (r, h') \<Rightarrow> (map_sum id Some r, h'))"
| "getBox CropBox p h = (case getCropBox p h of (r, h') \<Rightarrow> (map_sum id Some r, h'))"
| "getBox BleedBox p h = (case getBleedBox p h of (r, h') \<Rightarrow> (Inr r, h'))"
| "getBox TrimBox p h = (case getTrimBox p h of (r, h') \<Rightarrow> (Inr r, h'))"
| "getBox ArtBox p h = (case getArtBox p h of (r, h') \<Rightarrow> (Inr r, h'))"

definition rectangleOf ::
  "(error + nat option) \<times> heap \<Rightarrow> error + PDFObject option list option" where
  "rectangleOf r = (case r of (res, h') \<Rightarrow> map_sum id (map_option (\<lambda>a. h' ! a)) res)"

lemma resolveBox_result:
  "resolveBox dict boxName h = (r, h') \<Longrightarrow>
   length h \<le> length h' \<and> (\<forall>a. r = Some a \<longrightarrow> a < length h')"
  by (auto simp: resolveBox_def alloc_def split: option.splits if_splits)

lemma constructed_boxes_allocated:
  assumes "newPDFPage objectRef' dict resolver h0 = (Inr p, resolver', h1)"
  shows "storedBox b p = Some a \<Longrightarrow> a < length h1"
proof -
  obtain m ha where r1: "resolveBox dict (js ''MediaBox'') h0 = (m, ha)"
    by (cases "resolveBox dict (js ''MediaBox'') h0")
  obtain c hb where r2: "resolveBox dict (js ''CropBox'') ha = (c, hb)"
    by (cases "resolveBox dict (js ''CropBox'') ha")
  obtain bl hc where r3: "resolveBox dict (js ''BleedBox'') hb = (bl, hc)"
    by (cases "resolveBox dict (js ''BleedBox'') hb")
  obtain t hd where r4: "resolveBox dict (js ''TrimBox'') hc = (t, hd)"
    by (cases "resolveBox dict (js ''TrimBox'') hc")
  obtain ar he where r5: "resolveBox dict (js ''ArtBox'') hd = (ar, he)"
    by (cases "resolveBox dict (js ''ArtBox'') hd")
  note b = resolveBox_result[OF r1] resolveBox_result[OF r2] resolveBox_result[OF r3]
           resolveBox_result[OF r4] resolveBox_result[OF r5]
  from assms r1 r2 r3 r4 r5
  have p: "h1 = he" "mediaBox p = m" "cropBox p = (case c of Some a \<Rightarrow> Some a | None \<Rightarrow> m)"
          "bleedBox p = bl" "trimBox p = t" "artBox p = ar"
    by (auto simp: newPDFPage_def split: prod.splits sum.splits)
  assume "storedBox b p = Some a"
  with p b show "a < length h1"
    by (cases b) (auto split: option.splits)
qed

text \<open>
  A box is stored exactly when the leaf's dictionary has a truthy entry for it; for the
  media box:
\<close>

lemma resolveBox_None:
  "(fst (resolveBox dict boxName h) = None) = (\<not> isTruthy (map_of dict boxName))"
  by (simp add: resolveBox_def isTruthy_def alloc_def split: option.splits)

lemma constructed_media_box:
  assumes "newPDFPage objectRef' dict resolver h0 = (Inr p, resolver', h1)"
  shows "(mediaBox p = None) = (\<not> isTruthy (map_of dict (js ''MediaBox'')))"
proof -
  obtain m ha where r1: "resolveBox dict (js ''MediaBox'') h0 = (m, ha)"
    by (cases "resolveBox dict (js ''MediaBox'') h0")
  with assms have "mediaBox p = m"
    by (auto simp: newPDFPage_def split: prod.splits sum.splits)
  with resolveBox_None[of dict "js ''MediaBox''" h0] r1 show ?thesis by simp
qed

text \<open>
  C10 (as the code has it). Take a page that the constructor built and any later heap.
  The page stores no media box exactly when the leaf's dictionary has no truthy
  \<open>MediaBox\<close>. A getter whose box the page stores returns a rectangle at an address
  that was not in use, so it is none of the page's boxes; the rectangle holds the
  elements of the stored box; and whatever is written to it afterwards, the page's
  stored boxes keep their elements and every getter returns the same rectangle contents
  as before. A getter whose box the page does not store returns no rectangle:
  \<open>getMediaBox\<close> and \<open>getCropBox\<close> raise \<open>TypeError\<close>, the other three return
  \<open>undefined\<close>.
\<close>

theorem box_getters_return_fresh_copies:
  assumes "newPDFPage objectRef' dict resolver h0 = (Inr p, resolver', h1)"
      and "length h1 \<le> length h"
  shows "((storedBox MediaBox p = None) = (\<not> isTruthy (map_of dict (js ''MediaBox''))))
         \<and> (case storedBox b p of
               None \<Rightarrow>
                 getBox b p h = (if b = MediaBox \<or> b = CropBox then Inl TypeError else Inr None, h)
             | Some c \<Rightarrow>
                 getBox b p h = (Inr (Some (length h)), h @ [h ! c])
                 \<and> (\<forall>b'. storedBox b' p \<noteq> Some (length h))
                 \<and> (\<forall>xs b' d. storedBox b' p = Some d
                       \<longrightarrow> ((h @ [h ! c])[length h := xs]) ! d = h ! d)
                 \<and> (\<forall>xs b'. rectangleOf (getBox b' p ((h @ [h ! c])[length h := xs]))
                              = rectangleOf (getBox b' p h)))"
proof (intro conjI)
  show "(storedBox MediaBox p = None) = (\<not> isTruthy (map_of dict (js ''MediaBox'')))"
    using constructed_media_box[OF assms(1)] by simp
next
  have alloc: "\<And>b' c. storedBox b' p = Some c \<Longrightarrow> c < length h"
    using constructed_boxes_allocated[OF assms(1)] assms(2) by fastforce
  show "case storedBox b p of
               None \<Rightarrow>
                 getBox b p h = (if b = MediaBox \<or> b = CropBox then Inl TypeError else Inr None, h)
             | Some c \<Rightarrow>
                 getBox b p h = (Inr (Some (length h)), h @ [h ! c])
                 \<and> (\<forall>b'. storedBox b' p \<noteq> Some (length h))
                 \<and> (\<forall>xs b' d. storedBox b' p = Some d
                       \<longrightarrow> ((h @ [h ! c])[length h := xs]) ! d = h ! d)
                 \<and> (\<forall>xs b'. rectangleOf (getBox b' p ((h @ [h ! c])[length h := xs]))
                              = rectangleOf (getBox b' p h))"
  proof (cases "storedBox b p")
    case None
    then have "getBox b p h = (if b = MediaBox \<or> b = CropBox then Inl TypeError else Inr None, h)"
      by (cases b)
         (simp_all add: getMediaBox_def getCropBox_def getBleedBox_def getTrimBox_def getArtBox_def)
    with None show ?thesis by simp
  next
    case (Some c)
    let ?h' = "h @ [h ! c]"
    from Some have ret: "getBox b p h = (Inr (Some (length h)), ?h')"
      by (cases b)
         (simp_all add: getMediaBox_def getCropBox_def getBleedBox_def getTrimBox_def getArtBox_def
                alloc_def)
    have fresh: "\<And>b'. storedBox b' p \<noteq> Some (length h)"
      using alloc by fastforce
    have kept: "\<And>xs b' d. storedBox b' p = Some d \<Longrightarrow> (?h'[length h := xs]) ! d = h ! d"
      using alloc by (fastforce simp: nth_append)
    have same: "rectangleOf (getBox b' p (?h'[length h := xs])) = rectangleOf (getBox b' p h)"
      for xs b'
    proof (cases "storedBox b' p")
      case None
      then show ?thesis
        by (cases b')
           (auto simp: getMediaBox_def getCropBox_def getBleedBox_def getTrimBox_def getArtBox_def
                  rectangleOf_def)
    next
      case (Some d)
      with kept[of b' d xs] alloc[of b' d] show ?thesis
        by (cases b')
           (auto simp: getMediaBox_def getCropBox_def getBleedBox_def getTrimBox_def getArtBox_def
                  rectangleOf_def alloc_def nth_append)
    qed
    from Some ret fresh kept same show ?thesis by simp
  qed
qed

text \<open>
  C10 as stated fails for the page built from the leaf that has only its parent: the
  construction returns a page, and \<open>getMediaBox\<close> and \<open>getCropBox\<close> raise
  \<open>TypeError\<close> on it.
\<close>

theorem box_getters_counterexample:
  "(case newPDFPage (4, 0) leafDict (newResolver pageTable) [] of
      (Inl e, resolver', h) \<Rightarrow> False
    | (Inr p, resolver', h) \<Rightarrow>
        getMediaBox p h = (Inl TypeError, h) \<and> getCropBox p h = (Inl TypeError, h))"
  by (simp add: page_defs pageTable_def leafDict_def refKey_page resolveIndirectReference.simps
        js_def Let_def getMediaBox_def getCropBox_def)

subsection \<open>Media box and rotation\<close>

text \<open>
  C4 (as the code has it). For a leaf whose dictionary has no \<open>MediaBox\<close>, the
  construction raises exactly when resolving the resources raises; otherwise it returns a
  page whose media box is undefined, and whose crop box is undefined too unless the leaf
  has a \<open>CropBox\<close>.
\<close>

theorem media_box_read_from_leaf_only:
  assumes "map_of dict (js ''MediaBox'') = None"
  shows "(fst (newPDFPage objectRef' dict resolver h) = Inl e
            \<longleftrightarrow> fst (resolveResources dict (map_of dict (js ''Parent'')) resolver) = Inl e)
         \<and> (fst (newPDFPage objectRef' dict resolver h) = Inr p
            \<longrightarrow> mediaBox p = None \<and> (cropBox p = None \<or> isTruthy (map_of dict (js ''CropBox''))))"
  using assms
  by (auto simp: newPDFPage_def resolveBox_def isTruthy_def alloc_def
           split: prod.splits sum.splits option.splits if_splits)

text \<open>The theorem at the leaf of the example, in a new resolver and an empty heap.\<close>

theorem media_box_read_from_leaf_only_witness:
  "map_of leafDict (js ''MediaBox'') = None
   \<and> fst (resolveResources leafDict (map_of leafDict (js ''Parent'')) (newResolver pageTable))
       \<noteq> Inl TypeError
   \<and> fst (newPDFPage (4, 0) leafDict (newResolver pageTable) []) \<noteq> Inl TypeError
   \<and> fst (newPDFPage (4, 0) leafDict (newResolver pageTable) []) =
       Inr \<lparr>objectRef = (4, 0), rawDict = leafDict, mediaBox = None, cropBox = None,
            bleedBox = None, trimBox = None, artBox = None,
            resources = \<lparr>Font = PNull, XObject = PNull, ExtGState = PNull, ColorSpace = PNull,
                          Pattern = PNull, Shading = PNull,
                          ProcSet = PArray [PString (js ''PDF'')], Properties = PNull\<rparr>,
            contents = None, annots = None, rotate = PNumber 0, userUnit = PNumber 1,
            parent = Some (PReference 2 0)\<rparr>"
  using media_box_read_from_leaf_only[where dict = leafDict and objectRef' = "(4, 0)"
          and resolver = "newResolver pageTable" and h = "[]" and e = TypeError]
  by (simp add: page_defs pageTable_def leafDict_def refKey_page resolveIndirectReference.simps
        js_def Let_def)

text \<open>
  C4 as stated fails: the leaf has no \<open>MediaBox\<close>, its parent \<open>2 0\<close> has one, and the
  construction returns a page without a media box.
\<close>

theorem media_box_not_inherited_counterexample:
  "map_of leafDict (js ''MediaBox'') = None
   \<and> map_of leafDict (js ''Parent'') = Some (PReference 2 0)
   \<and> map_option (\<lambda>obj. element (value obj) 0) (map_of pageTable (refKey 2 0)) = Some None
   \<and> (case fst (newPDFPage (4, 0) leafDict (newResolver pageTable) []) of
         Inl e \<Rightarrow> False
       | Inr p \<Rightarrow> mediaBox p = None \<and> cropBox p = None)"
  by (simp add: page_defs pageTable_def leafDict_def refKey_page resolveIndirectReference.simps
        js_def Let_def)

text \<open>A leaf with a media box, resources and a rotation of 45.\<close>

definition rotatedDict :: "(jsstring \<times> PDFObject) list" where
  "rotatedDict = [(js ''Type'', PString (js ''Page'')),
                  (js ''MediaBox'', PArray [PNumber 0, PNumber 0, PNumber 612, PNumber 792]),
                  (js ''Resources'', PReference 3 0),
                  (js ''Rotate'', PNumber 45)]"

text \<open>
  C8 (as the code has it). The rotation of a constructed page is the \<open>Rotate\<close> entry of
  the leaf's own dictionary when that is truthy, and 0 otherwise.
\<close>

theorem rotate_copied_from_leaf:
  assumes "fst (newPDFPage objectRef' dict resolver h) = Inr p"
  shows "getRotation p =
           (case map_of dict (js ''Rotate'') of
              None \<Rightarrow> PNumber 0
            | Some v \<Rightarrow> if truthy v then v else PNumber 0)"
  using assms
  by (auto simp: newPDFPage_def getRotation_def orElse_def split: prod.splits sum.splits option.splits)

text \<open>The theorem at the leaf with rotation 45.\<close>

theorem rotate_copied_from_leaf_witness:
  "fst (newPDFPage (6, 0) rotatedDict (newResolver pageTable) []) =
     Inr \<lparr>objectRef = (6, 0), rawDict = rotatedDict, mediaBox = Some 0, cropBox = Some 0,
          bleedBox = None, trimBox = None, artBox = None,
          resources = \<lparr>Font = PNull, XObject = PNull, ExtGState = PNull, ColorSpace = PNull,
                        Pattern = PNull, Shading = PNull,
                        ProcSet = PArray [PString (js ''PDF'')], Properties = PNull\<rparr>,
          contents = None, annots = None, rotate = PNumber 45, userUnit = PNumber 1,
          parent = None\<rparr>
   \<and> getRotation \<lparr>objectRef = (6, 0), rawDict = rotatedDict, mediaBox = Some 0, cropBox = Some 0,
          bleedBox = None, trimBox = None, artBox = None,
          resources = \<lparr>Font = PNull, XObject = PNull, ExtGState = PNull, ColorSpace = PNull,
                        Pattern = PNull, Shading = PNull,
                        ProcSet = PArray [PString (js ''PDF'')], Properties = PNull\<rparr>,
          contents = None, annots = None, rotate = PNumber 45, userUnit = PNumber 1,
          parent = None\<rparr> = PNumber 45"
  using rotate_copied_from_leaf[where dict = rotatedDict and objectRef' = "(6, 0)"
          and resolver = "newResolver pageTable" and h = "[]"]
  by (simp add: page_defs pageTable_def rotatedDict_def refKey_page resolveIndirectReference.simps
        js_def Let_def getRotation_def)

text \<open>
  C8 as stated fails: the page built from the leaf with \<open>Rotate\<close> 45 has rotation 45,
  which is none of 0, 90, 180 and 270.
\<close>

theorem rotate_not_normalised_counterexample:
  "(case fst (newPDFPage (6, 0) rotatedDict (newResolver pageTable) []) of
      Inl e \<Rightarrow> False
    | Inr p \<Rightarrow> getRotation p = PNumber 45
               \<and> getRotation p \<notin> {PNumber 0, PNumber 90, PNumber 180, PNumber 270})"
  by (simp add: page_defs pageTable_def rotatedDict_def refKey_page resolveIndirectReference.simps
        js_def Let_def getRotation_def)

text \<open>The page and the heap that the constructor returns for that leaf.\<close>

definition letterPage :: PDFPage where
  "letterPage =
     \<lparr>objectRef = (6, 0), rawDict = rotatedDict, mediaBox = Some 0, cropBox = Some 0,
      bleedBox = None, trimBox = None, artBox = None,
      resources = \<lparr>Font = PNull, XObject = PNull, ExtGState = PNull, ColorSpace = PNull,
                    Pattern = PNull, Shading = PNull,
                    ProcSet = PArray [PString (js ''PDF'')], Properties = PNull\<rparr>,
      contents = None, annots = None, rotate = PNumber 45, userUnit = PNumber 1,
      parent = None\<rparr>"

definition letterHeap :: heap where
  "letterHeap = [[Some (PNumber 0), Some (PNumber 0), Some (PNumber 612), Some (PNumber 792)]]"

text \<open>
  The theorem of C10 at that page: \<open>getMediaBox\<close> returns address 1, after the
  rectangle there is emptied the stored box at address 0 and the result of
  \<open>getCropBox\<close> are as before, and \<open>getBleedBox\<close> returns \<open>undefined\<close>.
\<close>

theorem box_getters_return_fresh_copies_witness:
  "fst (newPDFPage (6, 0) rotatedDict (newResolver pageTable) []) = Inr letterPage
   \<and> snd (snd (newPDFPage (6, 0) rotatedDict (newResolver pageTable) [])) = letterHeap
   \<and> storedBox MediaBox letterPage = Some 0
   \<and> getBox MediaBox letterPage letterHeap = (Inr (Some 1), letterHeap @ letterHeap)
   \<and> storedBox CropBox letterPage = Some 0
   \<and> ((letterHeap @ letterHeap)[1 := []]) ! 0 = letterHeap ! 0
   \<and> rectangleOf (getBox CropBox letterPage ((letterHeap @ letterHeap)[1 := []]))
       = rectangleOf (getBox CropBox letterPage letterHeap)
   \<and> storedBox BleedBox letterPage = None
   \<and> getBox BleedBox letterPage letterHeap = (Inr None, letterHeap)"
proof -
  have 5: "fst (newPDFPage (6, 0) rotatedDict (newResolver pageTable) []) = Inr letterPage"
    and 6: "snd (snd (newPDFPage (6, 0) rotatedDict (newResolver pageTable) [])) = letterHeap"
    by (simp_all add: page_defs pageTable_def rotatedDict_def refKey_page
          resolveIndirectReference.simps js_def Let_def letterPage_def letterHeap_def)
  then have built: "newPDFPage (6, 0) rotatedDict (newResolver pageTable) []
                 = (Inr letterPage,
                    fst (snd (newPDFPage (6, 0) rotatedDict (newResolver pageTable) [])),
                    letterHeap)"
    by (metis prod.collapse)
  have stored: "storedBox MediaBox letterPage = Some 0" "storedBox CropBox letterPage = Some 0"
    "storedBox BleedBox letterPage = None"
    by (simp_all add: letterPage_def)
  have heap: "length letterHeap = 1" "letterHeap @ [letterHeap ! 0] = letterHeap @ letterHeap"
    by (simp_all add: letterHeap_def)
  note media = conjunct2[OF box_getters_return_fresh_copies[OF built order_refl, where b = MediaBox],
                 unfolded stored option.case heap]
  note bleed = conjunct2[OF box_getters_return_fresh_copies[OF built order_refl, where b = BleedBox],
                 unfolded stored option.case]
  from media have 1: "getBox MediaBox letterPage letterHeap = (Inr (Some 1), letterHeap @ letterHeap)"
    by (rule conjunct1)
  from media stored(2) have 2: "((letterHeap @ letterHeap)[1 := []]) ! 0 = letterHeap ! 0"
    by blast
  from media have 3: "rectangleOf (getBox CropBox letterPage ((letterHeap @ letterHeap)[1 := []]))
       = rectangleOf (getBox CropBox letterPage letterHeap)"
    by blast
  from bleed have 4: "getBox BleedBox letterPage letterHeap = (Inr None, letterHeap)"
    by simp
  from 1 2 3 4 5 6 stored show ?thesis by blast
qed

end
